theory Spec2Isabelle
  imports Complex_Main "HOL-Library.Sublist" "HOL-Library.AList"
begin

section \<open>Values, errors and tensors\<close>

text \<open>
  The script \<^verbatim>\<open>val_multigpu_sam2_point_iterative.py\<close> is embedded function by function.
  Python exceptions are values of \<open>py_error\<close>; a computation that may raise returns
  \<open>py_error + 'a\<close> with \<open>Inl\<close> for the exception.
\<close>

datatype py_error = IndexError | KeyError | ValueError | RuntimeError | UnboundLocalError

definition err_bind :: "'e + 'a \<Rightarrow> ('a \<Rightarrow> 'e + 'b) \<Rightarrow> 'e + 'b" where
  "err_bind m f = (case m of Inl e \<Rightarrow> Inl e | Inr x \<Rightarrow> f x)"

fun collect :: "('e + 'a) list \<Rightarrow> 'e + 'a list" where
  "collect [] = Inr []"
| "collect (m # ms) = err_bind m (\<lambda>x. err_bind (collect ms) (\<lambda>xs. Inr (x # xs)))"

text \<open>
  A torch float is either NaN or a number. Numbers are exact rationals: rounding of
  float32 arithmetic is not modelled, only the NaN behaviour of comparisons and of
  \<^verbatim>\<open>nan_to_num\<close>, \<^verbatim>\<open>isnan\<close> and \<^verbatim>\<open>max\<close>.
\<close>

datatype fval = NaN | Val rat

fun isnan :: "fval \<Rightarrow> bool" where
  "isnan NaN = True"
| "isnan (Val _) = False"

fun fless :: "fval \<Rightarrow> fval \<Rightarrow> bool" where
  "fless (Val a) (Val b) = (a < b)"
| "fless _ _ = False"

text \<open>
  A tensor of any rank: a scalar, or a sequence of sub-tensors along the first axis.
  torch and numpy tensors are rectangular; the nested representation does not record
  the trailing dimensions of a tensor whose first axis has size 0.
\<close>

datatype 'a tensor = Scalar 'a | Tensor "'a tensor list"

fun shape :: "'a tensor \<Rightarrow> nat list" where
  "shape (Scalar a) = []"
| "shape (Tensor []) = [0]"
| "shape (Tensor (t # ts)) = Suc (length ts) # shape t"

text \<open>\<^verbatim>\<open>t[i]\<close> for a non-negative index.\<close>

fun tnth :: "'a tensor \<Rightarrow> nat \<Rightarrow> py_error + 'a tensor" where
  "tnth (Scalar a) i = Inl IndexError"
| "tnth (Tensor ts) i = (if i < length ts then Inr (ts ! i) else Inl IndexError)"

text \<open>\<^verbatim>\<open>torch.nonzero\<close>: the index vectors of the true entries, in row-major order.\<close>

fun nonzero :: "bool tensor \<Rightarrow> nat list list"
  and nonzero_from :: "nat \<Rightarrow> bool tensor list \<Rightarrow> nat list list" where
  "nonzero (Scalar b) = (if b then [[]] else [])"
| "nonzero (Tensor ts) = nonzero_from 0 ts"
| "nonzero_from i [] = []"
| "nonzero_from i (t # ts) = map ((#) i) (nonzero t) @ nonzero_from (Suc i) ts"

text \<open>Element-wise binary operations on tensors of one shape.\<close>

fun tmap2 :: "('a \<Rightarrow> 'b \<Rightarrow> 'c) \<Rightarrow> 'a tensor \<Rightarrow> 'b tensor \<Rightarrow> 'c tensor"
  and tmap2s :: "('a \<Rightarrow> 'b \<Rightarrow> 'c) \<Rightarrow> 'a tensor list \<Rightarrow> 'b tensor list \<Rightarrow> 'c tensor list" where
  "tmap2 f (Scalar a) (Scalar b) = Scalar (f a b)"
| "tmap2 f (Tensor xs) (Tensor ys) = Tensor (tmap2s f xs ys)"
| "tmap2 f (Scalar a) (Tensor ys) = Tensor []"
| "tmap2 f (Tensor xs) (Scalar b) = Tensor []"
| "tmap2s f (x # xs) (y # ys) = tmap2 f x y # tmap2s f xs ys"
| "tmap2s f [] ys = []"
| "tmap2s f (x # xs) [] = []"

definition logical_not :: "bool tensor \<Rightarrow> bool tensor" where
  "logical_not t = map_tensor Not t"

text \<open>
  \<^verbatim>\<open>torch.logical_and\<close> raises a RuntimeError on shapes it cannot broadcast. Broadcasting
  of singleton dimensions is not modelled (the script passes two frames of one shape):
  any difference of shape is the error.
\<close>

definition logical_and :: "bool tensor \<Rightarrow> bool tensor \<Rightarrow> py_error + bool tensor" where
  "logical_and a b = (if shape a = shape b then Inr (tmap2 (\<and>) a b) else Inl RuntimeError)"

section \<open>Binary erosion\<close>

text \<open>
  \<^verbatim>\<open>scipy.ndimage.binary_erosion(input, structure)\<close> with its defaults (one iteration,
  \<^verbatim>\<open>border_value=0\<close>, \<^verbatim>\<open>origin=0\<close>) and an all-ones structuring element of \<open>kh \<times> kw\<close>
  entries: an output pixel is set iff every input pixel under the element, centred at
  index \<open>(kh div 2, kw div 2)\<close>, is set; pixels outside the image count as unset. scipy
  raises a RuntimeError when input and structure differ in rank.
\<close>

definition pixel :: "bool tensor \<Rightarrow> int \<Rightarrow> int \<Rightarrow> bool" where
  "pixel img i j =
     (if i < 0 \<or> j < 0 then False
      else case tnth img (nat i) of
             Inl _ \<Rightarrow> False
           | Inr row \<Rightarrow> (case tnth row (nat j) of Inr (Scalar b) \<Rightarrow> b | _ \<Rightarrow> False))"

definition fits :: "nat \<times> nat \<Rightarrow> bool tensor \<Rightarrow> nat \<Rightarrow> nat \<Rightarrow> bool" where
  "fits se img i j =
     list_all (\<lambda>a. list_all (\<lambda>b.
         pixel img (int i + int a - int (fst se div 2)) (int j + int b - int (snd se div 2)))
       [0..<snd se]) [0..<fst se]"

definition binary_erosion :: "bool tensor \<Rightarrow> nat \<times> nat \<Rightarrow> py_error + bool tensor" where
  "binary_erosion img se =
     (case shape img of
        [h, w] \<Rightarrow> Inr (Tensor (map (\<lambda>i. Tensor (map (\<lambda>j. Scalar (fits se img i j)) [0..<w])) [0..<h]))
      | _ \<Rightarrow> Inl RuntimeError)"

section \<open>Choosing the nearest point\<close>

text \<open>
  \<^verbatim>\<open>_, sorted_indices = torch.sort(pdis)\<close>: the indices of the keys in ascending order of
  the keys. torch leaves the order of equal keys open unless \<^verbatim>\<open>stable=True\<close>; the model
  sorts stably, and the theorems below use only that the first index holds a least key.
\<close>

definition argsort :: "'k::linorder list \<Rightarrow> nat list" where
  "argsort ks = map snd (sort_key fst (zip ks [0..<length ks]))"

text \<open>\<^verbatim>\<open>((p - q) ** 2).sum(-1)\<close> for an index vector \<open>p\<close> and an integer vector \<open>q\<close>.\<close>

definition sq_dist :: "nat list \<Rightarrow> int list \<Rightarrow> int" where
  "sq_dist p q = sum_list (map2 (\<lambda>a b. (int a - b)\<^sup>2) p q)"

section \<open>Error-driven point correction\<close>

text \<open>
  A prompt \<^verbatim>\<open>[x, y]\<close> is a pair (column, row); \<^verbatim>\<open>_point\<close> is a list of prompts and
  \<^verbatim>\<open>_label\<close> the list of their labels (1 foreground, 0 background).

  \<open>append_nearest\<close> is the block that \<^verbatim>\<open>get_points_from_false_pred\<close> runs twice (source
  lines 84--90 with label 0 and 98--104 with label 1): if the eroded region has a
  point, the one nearest to \<^verbatim>\<open>_point[0]\<close> (read as row \<^verbatim>\<open>_point[0][1]\<close>, column
  \<^verbatim>\<open>_point[0][0]\<close>) is appended as \<^verbatim>\<open>[npoint[1], npoint[0]]\<close> together with the label.
  \<^verbatim>\<open>_point[0]\<close> on an empty list raises IndexError.
\<close>

type_synonym prompt = "nat \<times> nat"

definition structuring_element :: "nat \<times> nat" where
  "structuring_element = (20, 20)"

definition append_nearest ::
  "nat list list \<Rightarrow> nat \<Rightarrow> prompt list \<times> nat list \<Rightarrow> py_error + prompt list \<times> nat list" where
  "append_nearest plabelpoints lab pl =
     (if length plabelpoints > 0 then
        (case fst pl of
           [] \<Rightarrow> Inl IndexError
         | p0 # _ \<Rightarrow>
             (let pdis = map (\<lambda>p. sq_dist p [int (snd p0), int (fst p0)]) plabelpoints;
                  sorted_indices = argsort pdis;
                  npoint = plabelpoints ! (sorted_indices ! 0)
              in Inr (fst pl @ [(npoint ! 1, npoint ! 0)], snd pl @ [lab])))
      else Inr pl)"

definition get_points_from_false_pred ::
  "bool tensor \<Rightarrow> bool tensor \<Rightarrow> prompt list \<Rightarrow> nat list \<Rightarrow> py_error + prompt list \<times> nat list" where
  "get_points_from_false_pred pred gt u_point u_label =
     err_bind (logical_and (logical_not gt) pred) (\<lambda>fp_mask.
     err_bind (binary_erosion fp_mask structuring_element) (\<lambda>eroded_image.
     err_bind (append_nearest (nonzero eroded_image) 0 (u_point, u_label)) (\<lambda>pl.
     err_bind (logical_and (logical_not pred) gt) (\<lambda>fn_mask.
     err_bind (binary_erosion fn_mask structuring_element) (\<lambda>eroded_image.
     append_nearest (nonzero eroded_image) 1 pl)))))"

text \<open>
  The eroded region of \<open>a\<close> and not \<open>b\<close>, as the list of its pixels \<^verbatim>\<open>[row, col]\<close>:
  \<open>eroded_points pred gt\<close> is the eroded false-positive region and
  \<open>eroded_points gt pred\<close> the eroded false-negative region.
\<close>

definition eroded_points :: "bool tensor \<Rightarrow> bool tensor \<Rightarrow> nat list list" where
  "eroded_points a b =
     (case err_bind (logical_and (logical_not b) a) (\<lambda>m. binary_erosion m structuring_element) of
        Inl _ \<Rightarrow> []
      | Inr eroded_image \<Rightarrow> nonzero eroded_image)"

definition target :: "prompt \<Rightarrow> int list" where
  "target p0 = [int (snd p0), int (fst p0)]"

text \<open>
  The squared Euclidean distance between two prompts \<^verbatim>\<open>[x, y]\<close>, written out from its
  definition, independently of the distance computation of the script.
  \<open>nearest_in region p0 new\<close> says what a correction appends for a region: nothing when
  the region is empty, otherwise the one prompt \<^verbatim>\<open>[col, row]\<close> of a pixel of the region
  that is at least as near to the prompt \<open>p0\<close> as every pixel of the region.
\<close>

definition prompt_dist :: "prompt \<Rightarrow> prompt \<Rightarrow> int" where
  "prompt_dist p q = (int (fst p) - int (fst q))\<^sup>2 + (int (snd p) - int (snd q))\<^sup>2"

definition nearest_in :: "nat list list \<Rightarrow> prompt \<Rightarrow> prompt list \<Rightarrow> bool" where
  "nearest_in region p0 new =
     (if region = [] then new = []
      else \<exists>r c. new = [(c, r)] \<and> [r, c] \<in> set region \<and>
             list_all (\<lambda>q. prompt_dist (c, r) p0 \<le> prompt_dist (q ! 1, q ! 0) p0) region)"

subsection \<open>Properties of the helper functions\<close>

lemma err_bind_Inr [simp]: "err_bind (Inr x) f = f x"
  by (simp add: err_bind_def)

lemma err_bind_Inl [simp]: "err_bind (Inl e) f = Inl e"
  by (simp add: err_bind_def)

lemma err_bind_eq_Inr: "err_bind m f = Inr y \<longleftrightarrow> (\<exists>x. m = Inr x \<and> f x = Inr y)"
  by (cases m) simp_all

lemma length_argsort [simp]: "length (argsort ks) = length ks"
  by (simp add: argsort_def)

lemma sorted_hd_least: "sorted xs \<Longrightarrow> x \<in> set xs \<Longrightarrow> hd xs \<le> x"
  by (cases xs) auto

lemma argsort_first:
  assumes "ks \<noteq> []"
  shows "argsort ks ! 0 < length ks \<and> (\<forall>k \<in> set ks. ks ! (argsort ks ! 0) \<le> k)"
proof -
  define s where "s = sort_key fst (zip ks [0..<length ks])"
  have len: "length s = length ks" by (simp add: s_def)
  with assms have ne: "s \<noteq> []" by (cases s) simp_all
  have set_s: "set s = set (zip ks [0..<length ks])" by (simp add: s_def)
  have srt: "sorted (map fst s)" by (simp add: s_def)
  from ne have "hd s \<in> set s" by simp
  then have hd_in: "hd s \<in> set (zip ks [0..<length ks])" by (simp only: set_s)
  have hd_eq: "fst (hd s) = ks ! snd (hd s)" and hd_lt: "snd (hd s) < length ks"
    using hd_in by (auto simp: set_zip)
  have first: "argsort ks ! 0 = snd (hd s)"
    using ne by (simp add: argsort_def s_def [symmetric] hd_conv_nth)
  have least: "fst (hd s) \<le> k" if "k \<in> set ks" for k
  proof -
    from that obtain i where i: "i < length ks" "ks ! i = k" by (auto simp: in_set_conv_nth)
    then have "(k, i) \<in> set (zip ks [0..<length ks])" by (auto simp: set_zip)
    then have "(k, i) \<in> set s" by (simp only: set_s)
    then have "fst (k, i) \<in> fst ` set s" by (rule imageI)
    then have "k \<in> set (map fst s)" by simp
    with srt have "hd (map fst s) \<le> k" by (rule sorted_hd_least)
    with ne show ?thesis by (simp add: hd_map)
  qed
  have "\<forall>k \<in> set ks. ks ! (argsort ks ! 0) \<le> k"
    using least by (simp add: first hd_eq [symmetric])
  with hd_lt first show ?thesis by simp
qed

lemma nonzero_from_scalars:
  "nonzero_from a (map (\<lambda>j. Scalar (f j)) [a..<b]) = map (\<lambda>j. [j]) (filter f [a..<b])"
proof (induction "b - a" arbitrary: a)
  case 0
  then show ?case by simp
next
  case (Suc n)
  then have "a < b" and "n = b - Suc a" by simp_all
  with Suc.hyps(1) [of "Suc a"] show ?case by (simp add: upt_conv_Cons)
qed

lemma nonzero_from_rows:
  "nonzero_from a (map (\<lambda>i. Tensor (map (\<lambda>j. Scalar (f i j)) [0..<w])) [a..<b]) =
   concat (map (\<lambda>i. map (\<lambda>j. [i, j]) (filter (f i) [0..<w])) [a..<b])"
proof (induction "b - a" arbitrary: a)
  case 0
  then show ?case by simp
next
  case (Suc n)
  then have "a < b" and "n = b - Suc a" by simp_all
  with Suc.hyps(1) [of "Suc a"] show ?case
    by (simp add: upt_conv_Cons nonzero_from_scalars)
qed

lemma binary_erosion_Inr:
  "length (shape img) = 2 \<Longrightarrow> \<exists>e. binary_erosion img se = Inr e"
  by (cases "shape img" rule: list.exhaust; simp add: binary_erosion_def split: list.splits)
     (auto simp: binary_erosion_def split: list.splits)

lemma nonzero_binary_erosion:
  assumes "binary_erosion img se = Inr e"
  shows "\<exists>h w. shape img = [h, w] \<and>
     nonzero e = concat (map (\<lambda>i. map (\<lambda>j. [i, j]) (filter (fits se img i) [0..<w])) [0..<h])"
  using assms by (auto simp: binary_erosion_def nonzero_from_rows split: list.splits)

lemma nonzero_binary_erosion_iff:
  assumes "binary_erosion img se = Inr e"
  shows "p \<in> set (nonzero e) \<longleftrightarrow>
     (\<exists>i j. p = [i, j] \<and> i < hd (shape img) \<and> j < hd (tl (shape img)) \<and> fits se img i j)"
proof -
  from nonzero_binary_erosion [OF assms] obtain h w where
    s: "shape img = [h, w]" and
    n: "nonzero e = concat (map (\<lambda>i. map (\<lambda>j. [i, j]) (filter (fits se img i) [0..<w])) [0..<h])"
    by blast
  show ?thesis unfolding n s by auto
qed

lemma append_nearest_Nil [simp]: "append_nearest [] lab pl = Inr pl"
  by (simp add: append_nearest_def)

lemma sq_dist_pair: "sq_dist [i, j] (target p0) = prompt_dist (j, i) p0"
  by (simp add: sq_dist_def target_def prompt_dist_def)

lemma append_nearest_Cons:
  assumes pts: "pts \<noteq> []" and two: "\<forall>p \<in> set pts. \<exists>i j. p = [i, j]" and ps: "ps \<noteq> []"
  shows "\<exists>new. append_nearest pts lab (ps, ls) = Inr (ps @ new, ls @ [lab]) \<and>
           nearest_in pts (hd ps) new"
proof -
  define pdis where "pdis = map (\<lambda>p. sq_dist p (target (hd ps))) pts"
  define k where "k = argsort pdis ! 0"
  have ne: "pdis \<noteq> []" using pts by (simp add: pdis_def)
  from argsort_first [OF ne] have k_len: "k < length pdis"
    and least: "\<forall>d \<in> set pdis. pdis ! k \<le> d" unfolding k_def by blast+
  from k_len have k_lt: "k < length pts" by (simp add: pdis_def)
  from k_lt have mem: "pts ! k \<in> set pts" by simp
  with two obtain r c where rc: "pts ! k = [r, c]" by blast
  have dk: "pdis ! k = prompt_dist (c, r) (hd ps)"
    using k_lt rc by (simp add: pdis_def sq_dist_pair)
  have each: "prompt_dist (c, r) (hd ps) \<le> prompt_dist (q ! 1, q ! 0) (hd ps)" if q: "q \<in> set pts" for q
  proof -
    from two q obtain i j where ij: "q = [i, j]" by blast
    from q have "sq_dist q (target (hd ps)) \<in> set pdis" by (simp add: pdis_def)
    with least have "pdis ! k \<le> sq_dist q (target (hd ps))" by blast
    then show ?thesis unfolding dk by (simp add: ij sq_dist_pair)
  qed
  then have all: "list_all (\<lambda>q. prompt_dist (c, r) (hd ps) \<le> prompt_dist (q ! 1, q ! 0) (hd ps)) pts"
    by (simp add: list_all_iff)
  from ps obtain p0 rest where p0: "ps = p0 # rest" by (cases ps) auto
  have "append_nearest pts lab (ps, ls) = Inr (ps @ [(c, r)], ls @ [lab])"
    using pts rc by (simp add: append_nearest_def p0 Let_def k_def pdis_def target_def)
  moreover have "nearest_in pts (hd ps) [(c, r)]"
    using pts mem all by (auto simp: nearest_in_def rc)
  ultimately show ?thesis by blast
qed

lemma shape_map_tensor [simp]: "shape (map_tensor f t) = shape t"
proof (induction t)
  case (Scalar a)
  show ?case by simp
next
  case (Tensor ts)
  then show ?case by (cases ts) simp_all
qed

lemma length_tmap2s: "length (tmap2s f xs ys) = min (length xs) (length ys)"
  by (induction xs arbitrary: ys) (simp, case_tac ys, simp_all)

lemma shape_tmap2: "shape a = shape b \<Longrightarrow> shape (tmap2 f a b) = shape a"
proof (induction a arbitrary: b)
  case (Scalar x)
  then show ?case by (cases b) (simp, case_tac x2, simp_all)
next
  case (Tensor xs)
  show ?case
  proof (cases b)
    case (Scalar y)
    with Tensor.prems show ?thesis by (cases xs) simp_all
  next
    case b: (Tensor ys)
    show ?thesis
    proof (cases xs)
      case Nil
      with Tensor.prems b show ?thesis by (cases ys) simp_all
    next
      case (Cons x xs')
      with Tensor.prems b obtain y ys' where ys: "ys = y # ys'" by (cases ys) simp_all
      with Tensor.prems b Cons have "length xs' = length ys'" "shape x = shape y" by simp_all
      moreover have "shape (tmap2 f x y) = shape x"
        using Tensor.IH [of x y] Cons \<open>shape x = shape y\<close> by simp
      ultimately show ?thesis using b Cons ys by (simp add: length_tmap2s)
    qed
  qed
qed

lemma logical_and_Inr:
  "shape a = shape b \<Longrightarrow> logical_and a b = Inr (tmap2 (\<and>) a b)"
  by (simp add: logical_and_def)

lemma region_Inr:
  assumes "shape a = shape b" "length (shape a) = 2"
  shows "\<exists>m e. logical_and (logical_not b) a = Inr m \<and> binary_erosion m structuring_element = Inr e
     \<and> eroded_points a b = nonzero e"
proof -
  have s: "shape (logical_not b) = shape a" using assms by (simp add: logical_not_def)
  then have m: "logical_and (logical_not b) a = Inr (tmap2 (\<and>) (logical_not b) a)"
    by (rule logical_and_Inr)
  have "length (shape (tmap2 (\<and>) (logical_not b) a)) = 2"
    using shape_tmap2 [OF s, of "(\<and>)"] s assms by simp
  from binary_erosion_Inr [OF this] obtain e where
    e: "binary_erosion (tmap2 (\<and>) (logical_not b) a) structuring_element = Inr e" by blast
  show ?thesis using m e by (simp add: eroded_points_def)
qed

lemma eroded_points_pairs:
  assumes "shape a = shape b" "length (shape a) = 2"
  shows "\<forall>p \<in> set (eroded_points a b). \<exists>i j. p = [i, j]"
proof -
  from region_Inr [OF assms] obtain m e where
    e: "binary_erosion m structuring_element = Inr e" and n: "eroded_points a b = nonzero e"
    by blast
  show ?thesis unfolding n using nonzero_binary_erosion_iff [OF e] by blast
qed

lemma nearest_in_Nil [simp]: "nearest_in [] p0 new \<longleftrightarrow> new = []"
  by (simp add: nearest_in_def)

lemma append_nearest_cases:
  assumes two: "\<forall>p \<in> set pts. \<exists>i j. p = [i, j]" and ps: "ps \<noteq> []"
  shows "\<exists>new. append_nearest pts lab (ps, ls) = Inr (ps @ new, ls @ map (\<lambda>_. lab) new) \<and>
           nearest_in pts (hd ps) new"
proof (cases "pts = []")
  case True
  then show ?thesis by simp
next
  case False
  from append_nearest_Cons [OF False two ps, of lab ls] obtain new where
    a: "append_nearest pts lab (ps, ls) = Inr (ps @ new, ls @ [lab])" and n: "nearest_in pts (hd ps) new"
    by blast
  from n False have "length new = 1" by (auto simp: nearest_in_def)
  then have "map (\<lambda>_. lab) new = [lab]" by (cases new) simp_all
  with a n show ?thesis by auto
qed

lemma nth_tmap2s:
  "n < length xs \<Longrightarrow> n < length ys \<Longrightarrow> tmap2s f xs ys ! n = tmap2 f (xs ! n) (ys ! n)"
proof (induction xs arbitrary: ys n)
  case Nil
  then show ?case by simp
next
  case (Cons x xs)
  then obtain y ys' where ys: "ys = y # ys'" by (cases ys) auto
  with Cons show ?case by (cases n) simp_all
qed

lemma tnth_tmap2:
  "tnth (tmap2 f a b) n =
     (case tnth a n of Inl e \<Rightarrow> Inl IndexError
      | Inr x \<Rightarrow> (case tnth b n of Inl e \<Rightarrow> Inl IndexError | Inr y \<Rightarrow> Inr (tmap2 f x y)))"
  by (cases a; cases b) (simp_all add: length_tmap2s nth_tmap2s)

lemma pixel_tmap2_and: "pixel (tmap2 (\<and>) a b) i j \<longleftrightarrow> pixel a i j \<and> pixel b i j"
proof (cases "i < 0 \<or> j < 0")
  case True
  then show ?thesis by (simp add: pixel_def)
next
  case False
  have elem: "(case tmap2 (\<and>) x y of Scalar b \<Rightarrow> b | Tensor _ \<Rightarrow> False) \<longleftrightarrow>
      (case x of Scalar b \<Rightarrow> b | Tensor _ \<Rightarrow> False) \<and> (case y of Scalar b \<Rightarrow> b | Tensor _ \<Rightarrow> False)"
    for x y by (cases x; cases y) simp_all
  show ?thesis using False
    by (auto simp: pixel_def tnth_tmap2 elem split: sum.splits tensor.splits)
qed

lemma fits_iff:
  "fits se img i j \<longleftrightarrow>
     (\<forall>a < fst se. \<forall>b < snd se.
        pixel img (int i + int a - int (fst se div 2)) (int j + int b - int (snd se div 2)))"
  by (auto simp: fits_def list_all_iff)

text \<open>What the eroded region is, pixel by pixel.\<close>

lemma eroded_points_iff:
  assumes "shape a = shape b" and "shape a = [h, w]"
  shows "p \<in> set (eroded_points a b) \<longleftrightarrow>
     (\<exists>i j. p = [i, j] \<and> i < h \<and> j < w \<and>
        (\<forall>da < 20. \<forall>db < 20.
           pixel a (int i + int da - 10) (int j + int db - 10) \<and>
           pixel (logical_not b) (int i + int da - 10) (int j + int db - 10)))"
proof -
  let ?m = "tmap2 (\<and>) (logical_not b) a"
  have s: "shape (logical_not b) = shape a" using assms by (simp add: logical_not_def)
  have sm: "shape ?m = [h, w]" using shape_tmap2 [OF s, of "(\<and>)"] s assms by simp
  then have e: "binary_erosion ?m structuring_element =
      Inr (Tensor (map (\<lambda>i. Tensor (map (\<lambda>j. Scalar (fits structuring_element ?m i j)) [0..<w])) [0..<h]))"
    by (simp add: binary_erosion_def)
  have n: "eroded_points a b =
      nonzero (Tensor (map (\<lambda>i. Tensor (map (\<lambda>j. Scalar (fits structuring_element ?m i j)) [0..<w])) [0..<h]))"
    using e by (simp add: eroded_points_def logical_and_Inr [OF s])
  show ?thesis
    unfolding n nonzero_binary_erosion_iff [OF e] sm
    by (simp add: fits_iff structuring_element_def pixel_tmap2_and conj_commute)
qed

lemma shape_half: "shape (Tensor (replicate 20 (Tensor (replicate 20 (Scalar x) @ replicate 20 (Scalar y))))) = [20, 40]"
  by (simp add: numeral_eq_Suc)

lemma pixel_half:
  assumes "0 \<le> i" "i < 20" "0 \<le> j" "j < 40"
  shows "pixel (Tensor (replicate 20 (Tensor (replicate 20 (Scalar x) @ replicate 20 (Scalar y))))) i j
     = (if j < 20 then x else y)"
  using assms by (auto simp: pixel_def nth_append)

lemma logical_not_half:
  "logical_not (Tensor (replicate 20 (Tensor (replicate 20 (Scalar x) @ replicate 20 (Scalar y))))) =
   Tensor (replicate 20 (Tensor (replicate 20 (Scalar (\<not> x)) @ replicate 20 (Scalar (\<not> y)))))"
  by (simp add: logical_not_def)

lemma correction_unfold:
  assumes sh: "shape pred = shape gt" and two: "length (shape pred) = 2"
  shows "get_points_from_false_pred pred gt u_point u_label =
      err_bind (append_nearest (eroded_points pred gt) 0 (u_point, u_label))
        (append_nearest (eroded_points gt pred) 1)"
proof -
  from region_Inr [OF sh two] obtain m1 e1 where
    m1: "logical_and (logical_not gt) pred = Inr m1" and
    e1: "binary_erosion m1 structuring_element = Inr e1" and
    n1: "eroded_points pred gt = nonzero e1" by blast
  from sh two have sh': "shape gt = shape pred" and two': "length (shape gt) = 2" by simp_all
  from region_Inr [OF sh' two'] obtain m2 e2 where
    m2: "logical_and (logical_not pred) gt = Inr m2" and
    e2: "binary_erosion m2 structuring_element = Inr e2" and
    n2: "eroded_points gt pred = nonzero e2" by blast
  show ?thesis
    by (simp add: get_points_from_false_pred_def m1 e1 m2 e2 n1 n2)
qed

text \<open>
  Two masks of 20 by 40 pixels for concrete evaluations: the prediction is the left
  half and the ground truth the right half, so each of the two error regions is a
  square of 20 by 20 pixels and survives the erosion in one pixel.
\<close>

lemma half_fp_region:
  "eroded_points
     (Tensor (replicate 20 (Tensor (replicate 20 (Scalar True) @ replicate 20 (Scalar False)))))
     (Tensor (replicate 20 (Tensor (replicate 20 (Scalar False) @ replicate 20 (Scalar True))))) \<noteq> []"
proof -
  let ?P = "Tensor (replicate 20 (Tensor (replicate 20 (Scalar True) @ replicate 20 (Scalar False))))"
  let ?G = "Tensor (replicate 20 (Tensor (replicate 20 (Scalar False) @ replicate 20 (Scalar True))))"
  have sh: "shape ?P = shape ?G" and sP: "shape ?P = [20, 40]" by (simp_all add: shape_half)
  have "[10, 10] \<in> set (eroded_points ?P ?G)"
    unfolding eroded_points_iff [OF sh sP] logical_not_half
    by (simp add: pixel_half)
  then show ?thesis by auto
qed

lemma half_fn_region:
  "eroded_points
     (Tensor (replicate 20 (Tensor (replicate 20 (Scalar False) @ replicate 20 (Scalar True)))))
     (Tensor (replicate 20 (Tensor (replicate 20 (Scalar True) @ replicate 20 (Scalar False))))) \<noteq> []"
proof -
  let ?P = "Tensor (replicate 20 (Tensor (replicate 20 (Scalar True) @ replicate 20 (Scalar False))))"
  let ?G = "Tensor (replicate 20 (Tensor (replicate 20 (Scalar False) @ replicate 20 (Scalar True))))"
  have sG: "shape ?G = shape ?P" and sG2: "shape ?G = [20, 40]" by (simp_all add: shape_half)
  have "[10, 30] \<in> set (eroded_points ?G ?P)"
    unfolding eroded_points_iff [OF sG sG2] logical_not_half
    by (simp add: pixel_half)
  then show ?thesis by auto
qed

lemma half_correction:
  "\<exists>p q. get_points_from_false_pred
      (Tensor (replicate 20 (Tensor (replicate 20 (Scalar True) @ replicate 20 (Scalar False)))))
      (Tensor (replicate 20 (Tensor (replicate 20 (Scalar False) @ replicate 20 (Scalar True)))))
      [(3, 4)] [1] = Inr ([(3, 4), p, q], [1, 0, 1])"
proof -
  let ?P = "Tensor (replicate 20 (Tensor (replicate 20 (Scalar True) @ replicate 20 (Scalar False))))"
  let ?G = "Tensor (replicate 20 (Tensor (replicate 20 (Scalar False) @ replicate 20 (Scalar True))))"
  have sh: "shape ?P = shape ?G" and two: "length (shape ?P) = 2"
    and sh': "shape ?G = shape ?P" and two': "length (shape ?G) = 2"
    by (simp_all add: shape_half)
  have ne: "[(3::nat, 4::nat)] \<noteq> []" by simp
  from append_nearest_cases [OF eroded_points_pairs [OF sh two] ne, of 0 "[1]"]
  obtain fp where
    a1: "append_nearest (eroded_points ?P ?G) 0 ([(3, 4)], [1]) =
           Inr ([(3, 4)] @ fp, [1] @ map (\<lambda>_. 0) fp)" and
    c1: "nearest_in (eroded_points ?P ?G) (hd [(3, 4)]) fp" by blast
  from c1 half_fp_region obtain p where fp: "fp = [p]" by (auto simp: nearest_in_def)
  have ne': "[(3::nat, 4::nat), p] \<noteq> []" by simp
  from append_nearest_cases [OF eroded_points_pairs [OF sh' two'] ne', of 1 "[1, 0]"]
  obtain fn where
    a2: "append_nearest (eroded_points ?G ?P) 1 ([(3, 4), p], [1, 0]) =
           Inr ([(3, 4), p] @ fn, [1, 0] @ map (\<lambda>_. 1) fn)" and
    c2: "nearest_in (eroded_points ?G ?P) (hd [(3, 4), p]) fn" by blast
  from c2 half_fn_region obtain q where fn: "fn = [q]" by (auto simp: nearest_in_def)
  have "get_points_from_false_pred ?P ?G [(3, 4)] [1] = Inr ([(3, 4), p, q], [1, 0, 1])"
    unfolding correction_unfold [OF sh two] using a1 a2 by (simp add: fp fn)
  then show ?thesis by blast
qed

subsection \<open>The correction step\<close>












section \<open>Seed point selection\<close>

text \<open>
  \<^verbatim>\<open>get_points_from_label(labels, index)\<close>. The largest connected component is computed by
  MONAI (\<^verbatim>\<open>get_largest_connected_component_mask\<close>), which is not part of the script: it is
  the parameter \<open>lcc\<close>. The mean and the distances are float32 in the script and exact
  rationals here. All index vectors of one tensor have its rank as length.
  \<^verbatim>\<open>sorted_indices[0]\<close> on an empty tensor raises IndexError.
\<close>

definition mean0 :: "nat list list \<Rightarrow> rat list" where
  "mean0 ps =
     (case ps of
        [] \<Rightarrow> []
      | p # _ \<Rightarrow> map (\<lambda>k. sum_list (map (\<lambda>q. of_nat (q ! k)) ps) / of_nat (length ps)) [0..<length p])"

definition sq_dist_mean :: "nat list \<Rightarrow> rat list \<Rightarrow> rat" where
  "sq_dist_mean p m = sum_list (map2 (\<lambda>a b. (of_nat a - b)\<^sup>2) p m)"

definition get_points_from_label ::
  "(bool tensor \<Rightarrow> bool tensor) \<Rightarrow> nat tensor \<Rightarrow> nat \<Rightarrow> py_error + nat list" where
  "get_points_from_label lcc labels index =
     (let plabels = map_tensor (\<lambda>v. v = index) labels;
          plabels = lcc plabels;
          plabelpoints = nonzero plabels;
          pmean = mean0 plabelpoints;
          pdis = map (\<lambda>p. sq_dist_mean p pmean) plabelpoints;
          sorted_indices = argsort pdis
      in if sorted_indices = [] then Inl IndexError
         else Inr (plabelpoints ! (sorted_indices ! 0)))"


section \<open>Tensor operations used by the evaluation loop\<close>

text \<open>\<^verbatim>\<open>xs[i]\<close> and \<^verbatim>\<open>xs[-1]\<close> on an index vector.\<close>

definition py_nth :: "'a list \<Rightarrow> nat \<Rightarrow> py_error + 'a" where
  "py_nth xs i = (if i < length xs then Inr (xs ! i) else Inl IndexError)"

definition py_last :: "'a list \<Rightarrow> py_error + 'a" where
  "py_last xs = (if xs = [] then Inl IndexError else Inr (last xs))"

text \<open>\<^verbatim>\<open>torch.squeeze\<close>: every axis of size 1 is removed.\<close>

fun squeeze :: "'a tensor \<Rightarrow> 'a tensor" where
  "squeeze (Scalar a) = Scalar a"
| "squeeze (Tensor []) = Tensor []"
| "squeeze (Tensor [t]) = squeeze t"
| "squeeze (Tensor (t # u # ts)) = Tensor (map squeeze (t # u # ts))"

definition unsqueeze :: "'a tensor \<Rightarrow> 'a tensor" where
  "unsqueeze t = Tensor [t]"

fun is_scalar :: "'a tensor \<Rightarrow> bool" where
  "is_scalar (Scalar a) = True"
| "is_scalar (Tensor ts) = False"

text \<open>\<^verbatim>\<open>t[..., k]\<close>: the index \<open>k\<close> on the last axis.\<close>

fun index_last :: "nat \<Rightarrow> 'a tensor \<Rightarrow> py_error + 'a tensor" where
  "index_last k (Scalar a) = Inl IndexError"
| "index_last k (Tensor ts) =
     (if list_all is_scalar ts then tnth (Tensor ts) k
      else err_bind (collect (map (index_last k) ts)) (\<lambda>rs. Inr (Tensor rs)))"

text \<open>\<^verbatim>\<open>t[:, :, k]\<close>: the index \<open>k\<close> on the third axis.\<close>

definition index_axis2 :: "nat \<Rightarrow> 'a tensor \<Rightarrow> py_error + 'a tensor" where
  "index_axis2 k t =
     (case t of
        Scalar _ \<Rightarrow> Inl IndexError
      | Tensor rows \<Rightarrow>
          err_bind (collect (map (\<lambda>row.
              case row of
                Scalar _ \<Rightarrow> Inl IndexError
              | Tensor cols \<Rightarrow> err_bind (collect (map (\<lambda>c. tnth c k) cols)) (\<lambda>cs. Inr (Tensor cs)))
            rows))
            (\<lambda>rs. Inr (Tensor rs)))"

fun flatten :: "'a tensor \<Rightarrow> 'a list" where
  "flatten (Scalar a) = [a]"
| "flatten (Tensor ts) = concat (map flatten ts)"

definition tsum :: "nat tensor \<Rightarrow> nat" where
  "tsum t = sum_list (flatten t)"

text \<open>\<^verbatim>\<open>t > 0.0\<close> on logits: a comparison with NaN is false.\<close>

definition threshold :: "fval tensor \<Rightarrow> bool tensor" where
  "threshold t = map_tensor (\<lambda>v. fless (Val 0) v) t"

text \<open>\<^verbatim>\<open>(out_mask_logits[0] > 0.0).cpu()[0]\<close>\<close>

definition first_mask :: "fval tensor \<Rightarrow> py_error + bool tensor" where
  "first_mask out_mask_logits =
     err_bind (tnth out_mask_logits 0) (\<lambda>logits. tnth (threshold logits) 0)"

text \<open>
  \<^verbatim>\<open>np.stack(pred).transpose(1, 2, 0)\<close> for a list of frames: the frames, each of shape
  \<open>[h, w]\<close>, become a tensor of shape \<open>[h, w, number of frames]\<close>. numpy raises a ValueError
  for an empty list, for frames of different shapes, and when the stack is not of rank 3.
\<close>

definition stack_hwd :: "'a tensor list \<Rightarrow> py_error + 'a tensor" where
  "stack_hwd frames =
     (case frames of
        [] \<Rightarrow> Inl ValueError
      | f # fs \<Rightarrow>
          if \<not> list_all (\<lambda>g. shape g = shape f) fs then Inl ValueError
          else (case shape f of
                  [h, w] \<Rightarrow>
                    err_bind (collect (map (\<lambda>i.
                        err_bind (collect (map (\<lambda>j.
                            err_bind (collect (map (\<lambda>g. err_bind (tnth g i) (\<lambda>row. tnth row j)) frames))
                              (\<lambda>col. Inr (Tensor col)))
                          [0..<w]))
                          (\<lambda>row. Inr (Tensor row)))
                      [0..<h]))
                      (\<lambda>rows. Inr (Tensor rows))
                | _ \<Rightarrow> Inl ValueError))"

section \<open>The refinement loop of \<^verbatim>\<open>run\<close>\<close>

text \<open>
  The collaborators of the script that are not part of it are parameters: the SAM2 video
  predictor (\<^verbatim>\<open>init_state\<close>, \<^verbatim>\<open>reset_state\<close>, \<^verbatim>\<open>add_new_points\<close>, \<^verbatim>\<open>propagate_in_video\<close>) over
  an inference state of type \<open>'s\<close>, MONAI's largest connected component and MONAI's
  \<^verbatim>\<open>compute_dice(y_pred, y)\<close>. \<^verbatim>\<open>add_new_points\<close> takes the state, the frame index, the
  object id, the prompts and their labels and returns the object ids and mask logits;
  \<^verbatim>\<open>propagate_in_video\<close> takes the state and the \<^verbatim>\<open>reverse\<close> flag and returns what the
  generator yields, in order: frame index, object ids, mask logits.
\<close>

record ('v, 's) collaborators =
  init_state :: "'v \<Rightarrow> 's"
  reset_state :: "'s \<Rightarrow> 's"
  add_new_points :: "'s \<Rightarrow> nat \<Rightarrow> nat \<Rightarrow> prompt list \<Rightarrow> nat list \<Rightarrow> 's \<times> nat list \<times> fval tensor"
  propagate_in_video :: "'s \<Rightarrow> bool \<Rightarrow> 's \<times> (nat \<times> nat list \<times> fval tensor) list"
  largest_component :: "bool tensor \<Rightarrow> bool tensor"
  compute_dice :: "bool tensor \<Rightarrow> nat tensor \<Rightarrow> fval"

text \<open>
  The local variables of \<^verbatim>\<open>run\<close> that live across iterations: \<^verbatim>\<open>inference_state\<close>,
  \<^verbatim>\<open>_point\<close>, \<^verbatim>\<open>_label\<close>, \<^verbatim>\<open>ann_frame_idx\<close> and \<^verbatim>\<open>lowerest_dice_index\<close>. The first four are
  assigned before they are read on every path (iteration 0 of each object assigns
  them); \<^verbatim>\<open>lowerest_dice_index\<close> is bound only once a frame has set it, so it is an option
  and reading it unbound raises UnboundLocalError.
\<close>

record 's locals =
  inference_state :: 's
  cur_point :: "prompt list"
  cur_label :: "nat list"
  ann_frame_idx :: nat
  lowerest_dice_index :: "nat option"

text \<open>Iteration 0 (source lines 290--309): seed from the whole label volume, correct once.\<close>

definition seed_first :: "('v, 's) collaborators \<Rightarrow> nat tensor \<Rightarrow> 's locals \<Rightarrow> py_error + 's locals" where
  "seed_first c label st =
     (let s1 = reset_state c (inference_state st) in
      err_bind (get_points_from_label (largest_component c) label 1) (\<lambda>point.
      err_bind (py_nth point 1) (\<lambda>x.
      err_bind (py_nth point 0) (\<lambda>y.
      let u_point = [(x, y)]; u_label = [1] in
      err_bind (py_last point) (\<lambda>frame_idx.
      let ann_obj_id = 1;
          (s2, out_obj_ids, out_mask_logits) = add_new_points c s1 frame_idx ann_obj_id u_point u_label in
      err_bind (first_mask out_mask_logits) (\<lambda>pred.
      err_bind (index_axis2 frame_idx label) (\<lambda>slice.
      let gt = map_tensor (\<lambda>v. v = 1) slice in
      err_bind (get_points_from_false_pred pred gt u_point u_label) (\<lambda>(u_point, u_label).
      Inr (st\<lparr>inference_state := s2, cur_point := u_point, cur_label := u_label,
               ann_frame_idx := frame_idx\<rparr>)))))))))"

text \<open>
  Iterations 1 and later (source lines 311--335). Line 314 computes a point from the
  frame \<^verbatim>\<open>lowerest_dice_index\<close>; line 317 assigns \<^verbatim>\<open>point\<close> again from the whole volume.
  \<open>reseed\<close> is the code from line 317 on, which reads only the second value of \<^verbatim>\<open>point\<close>;
  \<open>s1\<close> is the inference state after the \<^verbatim>\<open>reset_state\<close> of line 312.
  \<^verbatim>\<open>add_new_points\<close> is called with the prompts of the previous iteration; the additional
  prompt is appended afterwards, before the correction.
\<close>

definition reseed ::
  "('v, 's) collaborators \<Rightarrow> nat tensor \<Rightarrow> 's \<Rightarrow> 's locals \<Rightarrow> py_error + 's locals" where
  "reseed c label s1 st =
     err_bind (get_points_from_label (largest_component c) label 1) (\<lambda>point.
     err_bind (py_nth point 1) (\<lambda>x.
     err_bind (py_nth point 0) (\<lambda>y.
     let point_additional = [(x, y)]; label_additional = [1] in
     err_bind (py_last point) (\<lambda>frame_idx.
     let ann_obj_id = 1;
         (s2, out_obj_ids, out_mask_logits) =
            add_new_points c s1 frame_idx ann_obj_id (cur_point st) (cur_label st) in
     err_bind (first_mask out_mask_logits) (\<lambda>pred.
     err_bind (index_axis2 frame_idx label) (\<lambda>slice.
     let gt = map_tensor (\<lambda>v. v = 1) slice;
         u_point = cur_point st @ point_additional;
         u_label = cur_label st @ label_additional in
     err_bind (get_points_from_false_pred pred gt u_point u_label) (\<lambda>(u_point, u_label).
     Inr (st\<lparr>inference_state := s2, cur_point := u_point, cur_label := u_label,
              ann_frame_idx := frame_idx\<rparr>))))))))"

definition seed_later :: "('v, 's) collaborators \<Rightarrow> nat tensor \<Rightarrow> 's locals \<Rightarrow> py_error + 's locals" where
  "seed_later c label st =
     (let s1 = reset_state c (inference_state st) in
      err_bind (case lowerest_dice_index st of None \<Rightarrow> Inl UnboundLocalError | Some d \<Rightarrow> Inr d) (\<lambda>d.
      err_bind (index_last d label) (\<lambda>worst_frame.
      err_bind (get_points_from_label (largest_component c) worst_frame 1) (\<lambda>point.
      reseed c label s1 st))))"

subsection \<open>Propagation and the merge of the two passes\<close>

text \<open>
  \<^verbatim>\<open>video_segments\<close> is a dict from frame index to a dict from object id to mask. Dicts
  are association lists: \<open>AList.update\<close> overwrites the value of a key that is present
  and appends a new key, as a Python dict does. \<open>frame_masks\<close> is the dict comprehension
  of lines 351--354; \<open>record_frames\<close> is one \<^verbatim>\<open>for\<close> loop over what a pass yields, with
  the assignment \<^verbatim>\<open>video_segments[out_frame_idx] = {...}\<close>; \<open>merge_passes\<close> runs the loop
  over the forward pass and then over the reverse pass on the same dict.
\<close>

type_synonym video_segments = "(nat \<times> (nat \<times> bool tensor) list) list"

definition frame_masks :: "nat list \<Rightarrow> fval tensor \<Rightarrow> py_error + (nat \<times> bool tensor) list" where
  "frame_masks out_obj_ids out_mask_logits =
     err_bind (collect (map (\<lambda>(i, out_obj_id).
         err_bind (tnth out_mask_logits i) (\<lambda>logits. Inr (out_obj_id, threshold logits)))
       (enumerate 0 out_obj_ids)))
       (\<lambda>kvs. Inr (fold (\<lambda>(k, v). AList.update k v) kvs []))"

fun record_frames ::
  "(nat \<times> nat list \<times> fval tensor) list \<Rightarrow> video_segments \<Rightarrow> py_error + video_segments" where
  "record_frames [] video_segments = Inr video_segments"
| "record_frames ((out_frame_idx, out_obj_ids, out_mask_logits) # rest) video_segments =
     err_bind (frame_masks out_obj_ids out_mask_logits) (\<lambda>masks.
       record_frames rest (AList.update out_frame_idx masks video_segments))"

definition merge_passes ::
  "(nat \<times> nat list \<times> fval tensor) list \<Rightarrow> (nat \<times> nat list \<times> fval tensor) list \<Rightarrow>
   py_error + video_segments" where
  "merge_passes forward reverse = err_bind (record_frames forward []) (record_frames reverse)"

text \<open>
  \<^verbatim>\<open>[video_segments[i][ann_obj_id][0] for i in sorted(list(video_segments.keys()))]\<close>:
  a missing object id raises KeyError.
\<close>

definition segment_frames :: "video_segments \<Rightarrow> nat \<Rightarrow> py_error + bool tensor list" where
  "segment_frames video_segments ann_obj_id =
     collect (map (\<lambda>i.
         case map_of video_segments i of
           None \<Rightarrow> Inl KeyError
         | Some masks \<Rightarrow>
             (case map_of masks ann_obj_id of
                None \<Rightarrow> Inl KeyError
              | Some obj_mask \<Rightarrow> tnth obj_mask 0))
       (sort (map fst video_segments)))"

text \<open>Source lines 337--362: replay all prompts, propagate both ways, stack the frames.\<close>

definition propagate_merge ::
  "('v, 's) collaborators \<Rightarrow> 's locals \<Rightarrow> py_error + 's locals \<times> bool tensor" where
  "propagate_merge c st =
     (let ann_obj_id = 1;
          s3 = reset_state c (inference_state st);
          (s4, out_obj_ids, out_mask_logits) =
             add_new_points c s3 (ann_frame_idx st) ann_obj_id (cur_point st) (cur_label st);
          (s5, forward) = propagate_in_video c s4 False;
          (s6, reverse) = propagate_in_video c s5 True in
      err_bind (merge_passes forward reverse) (\<lambda>video_segments.
      err_bind (segment_frames video_segments ann_obj_id) (\<lambda>frames.
      err_bind (stack_hwd frames) (\<lambda>pred.
      Inr (st\<lparr>inference_state := s6\<rparr>, pred)))))"

subsection \<open>Per-frame Dice and the worst frame\<close>

text \<open>
  Source lines 365--375, started with \<^verbatim>\<open>lowerest_dice = 1000\<close>. A frame without foreground
  in the label is skipped; \<^verbatim>\<open>lowerest_dice_index\<close> keeps its previous binding when no
  frame sets it.
\<close>

fun frame_dice_loop ::
  "(bool tensor \<Rightarrow> nat tensor \<Rightarrow> fval) \<Rightarrow> bool tensor \<Rightarrow> nat tensor \<Rightarrow> nat list \<Rightarrow>
   fval \<times> nat option \<Rightarrow> py_error + fval \<times> nat option" where
  "frame_dice_loop dice pred label [] acc = Inr acc"
| "frame_dice_loop dice pred label (d # ds) (lowerest_dice, lowerest_index) =
     err_bind (index_last d label) (\<lambda>label_d.
       if tsum label_d > 0 then
         err_bind (index_last d pred) (\<lambda>pred_d.
           let pt_frame_dice = dice (unsqueeze (unsqueeze pred_d)) (unsqueeze (unsqueeze label_d)) in
           if fless pt_frame_dice lowerest_dice
           then frame_dice_loop dice pred label ds (pt_frame_dice, Some d)
           else frame_dice_loop dice pred label ds (lowerest_dice, lowerest_index))
       else frame_dice_loop dice pred label ds (lowerest_dice, lowerest_index))"

text \<open>
  One pass of the loop \<^verbatim>\<open>for idx in range(max_iters)\<close> up to the volume Dice (source
  lines 289--382): the new locals and \<^verbatim>\<open>pt_volume_dice\<close>.
\<close>

definition iteration ::
  "('v, 's) collaborators \<Rightarrow> nat tensor \<Rightarrow> nat \<Rightarrow> 's locals \<Rightarrow> py_error + 's locals \<times> fval" where
  "iteration c label idx st =
     err_bind (if idx = 0 then seed_first c label st else seed_later c label st) (\<lambda>st.
     err_bind (propagate_merge c st) (\<lambda>(st, pred).
     err_bind (frame_dice_loop (compute_dice c) pred label [0..<last (shape pred)]
                 (Val 1000, lowerest_dice_index st)) (\<lambda>(lowerest_dice, lowerest_index).
     let pt_volume_dice = compute_dice c (unsqueeze (unsqueeze pred)) (unsqueeze (unsqueeze label)) in
     Inr (st\<lparr>lowerest_dice_index := lowerest_index\<rparr>, pt_volume_dice))))"

section \<open>Metric bookkeeping\<close>

text \<open>
  The metric tensor has rank 3 and is a nested list indexed \<open>[volume][object][iteration]\<close>.
  It is created as \<^verbatim>\<open>torch.zeros(obj_num, metric_dim, max_iters) + torch.nan\<close>; the only
  write is \<^verbatim>\<open>metric[_index - 1, i - 1, idx] = pt_volume_dice\<close> (source line 386), an
  IndexError when the index is out of range.
\<close>

type_synonym metric = "fval list list list"

fun fadd :: "fval \<Rightarrow> fval \<Rightarrow> fval" where
  "fadd (Val a) (Val b) = Val (a + b)"
| "fadd _ _ = NaN"

definition zeros :: "nat \<Rightarrow> nat \<Rightarrow> nat \<Rightarrow> metric" where
  "zeros n m k = replicate n (replicate m (replicate k (Val 0)))"

definition init_metric :: "nat \<Rightarrow> nat \<Rightarrow> nat \<Rightarrow> metric" where
  "init_metric obj_num metric_dim max_iters =
     map (map (map (\<lambda>z. fadd z NaN))) (zeros obj_num metric_dim max_iters)"

definition set_metric :: "metric \<Rightarrow> nat \<Rightarrow> nat \<Rightarrow> nat \<Rightarrow> fval \<Rightarrow> py_error + metric" where
  "set_metric m v ob idx x =
     (if v < length m \<and> ob < length (m ! v) \<and> idx < length (m ! v ! ob)
      then Inr (m[v := (m ! v)[ob := (m ! v ! ob)[idx := x]]])
      else Inl IndexError)"

text \<open>
  What the evaluation produces besides the locals: the metric tensor and the log lines.
  A log line holds what the format string of line 388 prints: \<^verbatim>\<open>idx\<close>, \<^verbatim>\<open>_index\<close>,
  \<^verbatim>\<open>len(val_loader)\<close>, the file name and \<^verbatim>\<open>metric[_index - 1, :, idx]\<close>. The order in which
  the lines are logged (sorted as strings) is not modelled.
\<close>

type_synonym log_line = "nat \<times> nat \<times> nat \<times> string \<times> fval list"

record outputs =
  metric :: metric
  log_string :: "log_line list"

record 'v val_data =
  vd_image :: 'v
  vd_label :: "nat tensor"
  vd_filename :: string

text \<open>A \<^verbatim>\<open>for\<close> loop whose body may raise: the first error ends the loop.\<close>

fun for_each :: "('x \<Rightarrow> 'st \<Rightarrow> py_error + 'st) \<Rightarrow> 'x list \<Rightarrow> 'st \<Rightarrow> py_error + 'st" where
  "for_each body [] st = Inr st"
| "for_each body (x # xs) st = err_bind (body x st) (for_each body xs)"

text \<open>The body of \<^verbatim>\<open>for idx in range(max_iters)\<close> with its bookkeeping (lines 289--390).\<close>

definition iteration_step ::
  "('v, 's) collaborators \<Rightarrow> nat tensor \<Rightarrow> nat \<Rightarrow> nat \<Rightarrow> nat \<Rightarrow> string \<Rightarrow> nat \<Rightarrow>
   's locals \<times> outputs \<Rightarrow> py_error + 's locals \<times> outputs" where
  "iteration_step c label vol_index i n_volumes filename idx state =
     err_bind (iteration c label idx (fst state)) (\<lambda>(st, pt_volume_dice).
     err_bind (set_metric (metric (snd state)) (vol_index - 1) (i - 1) idx pt_volume_dice) (\<lambda>m.
     Inr (st, (snd state)\<lparr>metric := m,
            log_string := log_string (snd state) @
              [(idx, vol_index, n_volumes, filename, map (\<lambda>col. col ! idx) (m ! (vol_index - 1)))]\<rparr>)))"

text \<open>The body of \<^verbatim>\<open>for i in range(1, len(label_set))\<close> (lines 285--392).\<close>

definition label_step ::
  "('v, 's) collaborators \<Rightarrow> nat list \<Rightarrow> nat \<Rightarrow> 'v val_data \<Rightarrow> nat \<Rightarrow> nat \<Rightarrow> nat \<Rightarrow>
   's locals \<times> outputs \<Rightarrow> py_error + 's locals \<times> outputs" where
  "label_step c label_set max_iters val_data vol_index n_volumes i state =
     (let st = (fst state)\<lparr>inference_state := reset_state c (inference_state (fst state))\<rparr>;
          label_index = label_set ! i;
          label = squeeze (map_tensor (\<lambda>v. if v = label_index then 1 else 0) (vd_label val_data))
      in for_each (iteration_step c label vol_index i n_volumes (vd_filename val_data))
           [0..<max_iters] (st, snd state))"

text \<open>The body of \<^verbatim>\<open>for val_data in val_loader\<close> (lines 270--392); \<^verbatim>\<open>_index\<close> counts from 1.\<close>

definition volume_step ::
  "('v, 's) collaborators \<Rightarrow> nat list \<Rightarrow> nat \<Rightarrow> nat \<Rightarrow> nat \<times> 'v val_data \<Rightarrow>
   's locals \<times> outputs \<Rightarrow> py_error + 's locals \<times> outputs" where
  "volume_step c label_set max_iters n_volumes indexed state =
     (let st = (fst state)\<lparr>inference_state := init_state c (vd_image (snd indexed))\<rparr>
      in for_each (label_step c label_set max_iters (snd indexed) (fst indexed) n_volumes)
           [1..<length label_set] (st, snd state))"

text \<open>
  The evaluation of one worker over its shard \<open>val_loader\<close> (lines 251--392), with the
  size \<open>obj_num\<close> of the volume axis of its metric tensor. \<open>st0\<close> holds the locals before
  the loop.
\<close>

definition evaluate ::
  "('v, 's) collaborators \<Rightarrow> nat list \<Rightarrow> nat \<Rightarrow> nat \<Rightarrow> 'v val_data list \<Rightarrow> 's locals \<Rightarrow>
   py_error + 's locals \<times> outputs" where
  "evaluate c label_set max_iters obj_num val_loader st0 =
     (let metric_dim = length label_set - 1;
          out0 = \<lparr>metric = init_metric obj_num metric_dim max_iters, log_string = []\<rparr>
      in for_each (volume_step c label_set max_iters (length val_loader))
           (zip [1..<Suc (length val_loader)] val_loader) (st0, out0))"

section \<open>Workers, gathering and the report\<close>

text \<open>
  \<open>device_count\<close> is \<^verbatim>\<open>torch.cuda.device_count()\<close>. Lines 255--261: with more than one
  device every worker all-gathers the shard sizes and takes their maximum; otherwise
  \<open>obj_num\<close> is the size of the own shard. Lines 398--404: with more than one device the
  metric tensors of all workers are all-gathered and stacked along the volume axis
  (\<^verbatim>\<open>torch.vstack\<close>). A collective is modelled by its result: every worker receives the
  list of the contributions in rank order.
\<close>

definition obj_num_for :: "nat \<Rightarrow> nat list \<Rightarrow> nat \<Rightarrow> nat" where
  "obj_num_for device_count sizes rank = (if device_count > 1 then Max (set sizes) else sizes ! rank)"

definition worker_result ::
  "('v, 's) collaborators \<Rightarrow> nat list \<Rightarrow> nat \<Rightarrow> nat \<Rightarrow> 'v val_data list list \<Rightarrow> 's locals \<Rightarrow> nat \<Rightarrow>
   py_error + 's locals \<times> outputs" where
  "worker_result c label_set max_iters device_count shards st0 rank =
     evaluate c label_set max_iters (obj_num_for device_count (map length shards) rank) (shards ! rank) st0"

definition vstack :: "metric list \<Rightarrow> metric" where
  "vstack ms = concat ms"

definition gather_metric :: "nat \<Rightarrow> metric list \<Rightarrow> nat \<Rightarrow> metric" where
  "gather_metric device_count metrics rank = (if device_count > 1 then vstack metrics else metrics ! rank)"

text \<open>
  Lines 407--409: \<^verbatim>\<open>keep_index = ~torch.isnan(metric).all(1).all(1)\<close> and
  \<^verbatim>\<open>metric = metric[keep_index]\<close>. The first \<^verbatim>\<open>all(1)\<close> reduces the object axis of the
  \<open>[volume][object][iteration]\<close> tensor, the second the iteration axis of the result.
\<close>

definition all_axis1_of3 :: "bool list list list \<Rightarrow> bool list list" where
  "all_axis1_of3 x =
     map (\<lambda>row. map (\<lambda>i. list_all (\<lambda>col. col ! i) row)
                  [0..<(case row of [] \<Rightarrow> 0 | col # _ \<Rightarrow> length col)]) x"

definition all_axis1_of2 :: "bool list list \<Rightarrow> bool list" where
  "all_axis1_of2 x = map (list_all (\<lambda>b. b)) x"

definition keep_index :: "metric \<Rightarrow> bool list" where
  "keep_index m = map Not (all_axis1_of2 (all_axis1_of3 (map (map (map isnan)) m)))"

definition select_rows :: "bool list \<Rightarrow> 'a list \<Rightarrow> 'a list" where
  "select_rows keep rows = map snd (filter fst (zip keep rows))"

text \<open>
  Lines 411--414: \<^verbatim>\<open>torch.nan_to_num(metric, 0).max(2)[0]\<close> when \<^verbatim>\<open>max_iters > 1\<close>, else
  \<^verbatim>\<open>metric[:, :, 0]\<close>. \<^verbatim>\<open>max\<close> over an empty axis and index 0 on an empty axis raise
  IndexError.
\<close>

definition nan_to_num :: "rat \<Rightarrow> fval \<Rightarrow> fval" where
  "nan_to_num d x = (case x of NaN \<Rightarrow> Val d | Val r \<Rightarrow> Val r)"

fun fmax :: "fval \<Rightarrow> fval \<Rightarrow> fval" where
  "fmax (Val a) (Val b) = Val (max a b)"
| "fmax _ _ = NaN"

definition max_list :: "fval list \<Rightarrow> py_error + fval" where
  "max_list xs = (case xs of [] \<Rightarrow> Inl IndexError | x # rest \<Rightarrow> Inr (fold fmax rest x))"

definition metric_best :: "metric \<Rightarrow> nat \<Rightarrow> py_error + fval list list" where
  "metric_best m max_iters =
     (if max_iters > 1
      then collect (map (\<lambda>row. collect (map (\<lambda>col. max_list (map (nan_to_num 0) col)) row)) m)
      else collect (map (\<lambda>row. collect (map (\<lambda>col. py_nth col 0) row)) m))"

text \<open>
  Lines 406--428 on the reporting worker. \<^verbatim>\<open>point_num\<close> is read at line 410
  (\<^verbatim>\<open>point_num = point_num[keep_index]\<close>); it is a local of \<^verbatim>\<open>run\<close>, so it is passed
  as an option: \<open>None\<close> when no statement has bound it, which raises UnboundLocalError.
  The saved bundle is the dict \<^verbatim>\<open>{"metric": metric, "point": point_num}\<close>.
\<close>

record 'p saved_file =
  saved_metric :: metric
  saved_point :: "'p list"

definition report :: "metric \<Rightarrow> 'p list option \<Rightarrow> nat \<Rightarrow> py_error + 'p saved_file" where
  "report gathered point_num max_iters =
     (let keep = keep_index gathered;
          kept = select_rows keep gathered in
      err_bind (case point_num of None \<Rightarrow> Inl UnboundLocalError | Some p \<Rightarrow> Inr p) (\<lambda>p.
      let point_num = select_rows keep p in
      err_bind (metric_best kept max_iters) (\<lambda>best.
      Inr \<lparr>saved_metric = kept, saved_point = point_num\<rparr>)))"

text \<open>
  \<^verbatim>\<open>run\<close> from the evaluation on, as seen by the worker \<open>rank\<close>: all workers evaluate
  their shards (the failure of one is fatal to the run), the metric tensors are
  gathered, and the worker reports when there is one device or its rank is 0. Without a
  CUDA device the script fails before the evaluation (line 122). No
  statement of \<^verbatim>\<open>run\<close> assigns \<^verbatim>\<open>point_num\<close> before line 410, so the report receives
  \<open>None\<close>. The result holds the log lines of the worker and the saved bundle, if any.
\<close>

definition run ::
  "('v, 's) collaborators \<Rightarrow> nat list \<Rightarrow> nat \<Rightarrow> nat \<Rightarrow> 'v val_data list list \<Rightarrow> 's locals \<Rightarrow> nat \<Rightarrow>
   py_error + log_line list \<times> (fval list) saved_file option" where
  "run c label_set max_iters device_count shards st0 rank =
     (if device_count = 0 then Inl RuntimeError
      else
        err_bind (collect (map (worker_result c label_set max_iters device_count shards st0)
                    [0..<length shards])) (\<lambda>results.
        let gathered = gather_metric device_count (map (\<lambda>r. metric (snd r)) results) rank;
            logged = log_string (snd (results ! rank)) in
        if device_count = 1 \<or> rank = 0
        then err_bind (report gathered None max_iters) (\<lambda>saved. Inr (logged, Some saved))
        else Inr (logged, None)))"

section \<open>An instance of the collaborators\<close>

text \<open>
  For concrete evaluations the parameters need values. \<open>dice_score\<close> is the Dice score of
  the glossary, \<open>2 |A \<inter> B| / (|A| + |B|)\<close>, and NaN for an empty ground truth (MONAI's
  \<^verbatim>\<open>ignore_empty\<close>). \<open>replay_predictor\<close> is a predictor that ignores its prompts: the
  "video" is the list of the mask logits it answers per frame, and both passes of the
  propagation yield every frame (the forward pass in ascending and the reverse pass in
  descending order) for the object id 1. The largest connected component is the
  identity, which it is on a mask with one component. \<open>matrix\<close> and \<open>volume\<close> build tensors
  of rank 2 and 3 from nested lists.
\<close>

definition matrix :: "'a list list \<Rightarrow> 'a tensor" where
  "matrix rows = Tensor (map (\<lambda>row. Tensor (map Scalar row)) rows)"

definition volume :: "'a list list list \<Rightarrow> 'a tensor" where
  "volume planes = Tensor (map matrix planes)"

definition dice_score :: "bool tensor \<Rightarrow> nat tensor \<Rightarrow> fval" where
  "dice_score y_pred y =
     (let p = map (\<lambda>b. if b then 1 else 0) (flatten y_pred);
          g = flatten y
      in if sum_list g = 0 then NaN
         else Val (of_nat (2 * sum_list (map2 (*) p g)) / of_nat (sum_list p + sum_list g)))"

definition frame_logits :: "fval tensor list \<Rightarrow> nat \<Rightarrow> fval tensor" where
  "frame_logits video k = Tensor [Tensor [if k < length video then video ! k else Tensor []]]"

definition replay_predictor :: "(fval tensor list, fval tensor list) collaborators" where
  "replay_predictor =
     \<lparr>init_state = (\<lambda>video. video),
      reset_state = (\<lambda>s. s),
      add_new_points = (\<lambda>s frame_idx obj_id points labels. (s, [obj_id], frame_logits s frame_idx)),
      propagate_in_video = (\<lambda>s reverse.
         (s, map (\<lambda>k. (k, [1], frame_logits s k))
               (if reverse then rev [0..<length s] else [0..<length s]))),
      largest_component = (\<lambda>m. m),
      compute_dice = dice_score\<rparr>"

text \<open>
  A label volume of 2 by 2 pixels and 2 frames with one object: two pixels in frame 0
  and one in frame 1. The replayed video answers frame 0 exactly and frame 1 with an
  empty mask.
\<close>

definition example_label :: "nat tensor" where
  "example_label = volume [[[1, 0], [1, 0]], [[0, 0], [0, 1]]]"

definition example_video :: "fval tensor list" where
  "example_video =
     [matrix [[Val 1, Val 1], [Val (- 1), Val (- 1)]],
      matrix [[Val (- 1), Val (- 1)], [Val (- 1), Val (- 1)]]]"

definition example_volume :: "(fval tensor list) val_data" where
  "example_volume =
     \<lparr>vd_image = example_video, vd_label = Tensor [Tensor [example_label]], vd_filename = ''a''\<rparr>"

definition example_locals :: "(fval tensor list) locals" where
  "example_locals =
     \<lparr>inference_state = [], cur_point = [], cur_label = [], ann_frame_idx = 0,
      lowerest_dice_index = None\<rparr>"

section \<open>Properties of the metric bookkeeping\<close>

text \<open>
  \<open>all_nan row\<close>: every entry of a volume row is NaN. \<open>dims3 n d k m\<close>: the metric tensor
  \<open>m\<close> has the shape \<open>[n, d, k]\<close>. \<open>padded len n d k m\<close>: it has that shape and its rows
  from \<open>len\<close> on are all NaN.
\<close>

lemma select_rows_map: "select_rows (map P rows) rows = filter P rows"
  by (induction rows) (simp_all add: select_rows_def)

definition all_nan :: "fval list list \<Rightarrow> bool" where
  "all_nan row = list_all (list_all isnan) row"

lemma keep_row:
  assumes "\<forall>col \<in> set row. length col = k"
  shows "list_all (\<lambda>b. b)
           (map (\<lambda>i. list_all (\<lambda>col. col ! i) (map (map isnan) row))
              [0..<(case map (map isnan) row of [] \<Rightarrow> 0 | col # _ \<Rightarrow> length col)])
         = all_nan row"
proof (cases row)
  case Nil
  then show ?thesis by (simp add: all_nan_def)
next
  case (Cons c cs)
  with assms have len: "length c = k" by simp
  have A: "list_all (\<lambda>col. col ! i) (map (map isnan) row) = (\<forall>col \<in> set row. isnan (col ! i))"
    if "i < k" for i
    using that assms by (simp add: list_all_iff)
  have L: "list_all (\<lambda>b. b)
           (map (\<lambda>i. list_all (\<lambda>col. col ! i) (map (map isnan) row)) [0..<k])
         = (\<forall>i < k. \<forall>col \<in> set row. isnan (col ! i))"
    using A by (auto simp: list_all_iff)
  have R: "all_nan row = (\<forall>col \<in> set row. \<forall>i < k. isnan (col ! i))"
    using assms by (simp add: all_nan_def list_all_iff all_set_conv_all_nth)
  have K: "(case map (map isnan) row of [] \<Rightarrow> 0 | col # _ \<Rightarrow> length col) = k"
    using Cons len by simp
  show ?thesis unfolding K L R by blast
qed

lemma keep_index_eq:
  assumes "\<forall>row \<in> set m. \<forall>col \<in> set row. length col = k"
  shows "keep_index m = map (\<lambda>row. \<not> all_nan row) m"
proof -
  have "list_all (\<lambda>b. b)
           (map (\<lambda>i. list_all (\<lambda>col. col ! i) (map (map isnan) row))
              [0..<(case map (map isnan) row of [] \<Rightarrow> 0 | col # _ \<Rightarrow> length col)])
         = all_nan row" if "row \<in> set m" for row
    using that assms by (intro keep_row [of row k]) blast
  then show ?thesis
    by (simp add: keep_index_def all_axis1_of2_def all_axis1_of3_def)
qed

lemma drop_rows_filter:
  assumes "\<forall>row \<in> set m. \<forall>col \<in> set row. length col = k"
  shows "select_rows (keep_index m) m = filter (\<lambda>row. \<not> all_nan row) m"
  by (simp add: keep_index_eq [OF assms] select_rows_map)

definition dims3 :: "nat \<Rightarrow> nat \<Rightarrow> nat \<Rightarrow> metric \<Rightarrow> bool" where
  "dims3 n d k m \<longleftrightarrow>
     length m = n \<and> list_all (\<lambda>row. length row = d \<and> list_all (\<lambda>col. length col = k) row) m"

definition padded :: "nat \<Rightarrow> nat \<Rightarrow> nat \<Rightarrow> nat \<Rightarrow> metric \<Rightarrow> bool" where
  "padded len n d k m \<longleftrightarrow>
     dims3 n d k m \<and> drop len m = replicate (n - len) (replicate d (replicate k NaN))"

lemma init_metric_eq: "init_metric n d k = replicate n (replicate d (replicate k NaN))"
  by (simp add: init_metric_def zeros_def)

lemma dims3_init: "dims3 n d k (init_metric n d k)"
  by (simp add: init_metric_eq dims3_def list_all_iff)

lemma padded_init: "padded len n d k (init_metric n d k)"
  by (simp add: padded_def dims3_init) (simp add: init_metric_eq)

lemma set_metric_Inr:
  assumes "set_metric m v ob idx x = Inr m'"
  shows "m' = m[v := (m ! v)[ob := (m ! v ! ob)[idx := x]]]"
    and "v < length m" and "ob < length (m ! v)" and "idx < length (m ! v ! ob)"
  using assms by (simp_all add: set_metric_def split: if_splits)

lemma list_all_update:
  "list_all P xs \<Longrightarrow> P y \<Longrightarrow> list_all P (xs[i := y])"
  by (induction xs arbitrary: i) (simp_all split: nat.splits)

lemma set_metric_dims:
  assumes "set_metric m v ob idx x = Inr m'" and "dims3 n d k m"
  shows "dims3 n d k m'"
proof -
  note s = set_metric_Inr [OF assms(1)]
  from assms(2) have len: "length m = n"
    and rows: "list_all (\<lambda>row. length row = d \<and> list_all (\<lambda>col. length col = k) row) m"
    by (simp_all add: dims3_def)
  from rows s(2) have row: "length (m ! v) = d" "list_all (\<lambda>col. length col = k) (m ! v)"
    by (simp_all add: list_all_length)
  from row(2) s(3) have col: "length (m ! v ! ob) = k" by (simp add: list_all_length)
  have "list_all (\<lambda>col. length col = k) ((m ! v)[ob := (m ! v ! ob)[idx := x]])"
    using row(2) col by (intro list_all_update) simp_all
  with row(1) have "list_all (\<lambda>row. length row = d \<and> list_all (\<lambda>col. length col = k) row)
      (m[v := (m ! v)[ob := (m ! v ! ob)[idx := x]]])"
    using rows by (intro list_all_update) simp_all
  with len show ?thesis unfolding s(1) by (simp add: dims3_def)
qed

lemma set_metric_padded:
  assumes "set_metric m v ob idx x = Inr m'" and "padded len n d k m" and "v < len"
  shows "padded len n d k m'"
proof -
  note s = set_metric_Inr [OF assms(1)]
  have "drop len m' = drop len m" unfolding s(1) using assms(3) by simp
  with assms set_metric_dims [OF assms(1)] show ?thesis by (simp add: padded_def)
qed

lemma for_each_invariant:
  assumes "for_each body xs s = Inr s'" and "P s"
    and "\<And>x t t'. x \<in> set xs \<Longrightarrow> P t \<Longrightarrow> body x t = Inr t' \<Longrightarrow> P t'"
  shows "P s'"
  using assms
proof (induction xs arbitrary: s)
  case Nil
  then show ?case by simp
next
  case (Cons x xs)
  from Cons.prems(1) obtain t where t: "body x s = Inr t" and r: "for_each body xs t = Inr s'"
    by (auto simp: err_bind_eq_Inr)
  have pt: "P t" using Cons.prems(3) [of x s t] Cons.prems(2) t by simp
  show ?case
  proof (rule Cons.IH [OF r pt])
    fix y u u'
    assume "y \<in> set xs" "P u" "body y u = Inr u'"
    then show "P u'" using Cons.prems(3) [of y u u'] by simp
  qed
qed

lemma iteration_step_padded:
  assumes "iteration_step c label vol_index i n_volumes filename idx state = Inr state'"
    and "padded len n d k (metric (snd state))" and "vol_index - 1 < len"
  shows "padded len n d k (metric (snd state'))"
proof -
  from assms(1) obtain x m where
    m: "set_metric (metric (snd state)) (vol_index - 1) (i - 1) idx x = Inr m" and
    s': "metric (snd state') = m"
    by (auto simp: iteration_step_def err_bind_eq_Inr)
  from set_metric_padded [OF m assms(2,3)] s' show ?thesis by simp
qed

lemma label_step_padded:
  assumes "label_step c label_set max_iters val_data vol_index n_volumes i state = Inr state'"
    and "padded len n d k (metric (snd state))" and "vol_index - 1 < len"
  shows "padded len n d k (metric (snd state'))"
proof -
  let ?P = "\<lambda>t. padded len n d k (metric (snd t))"
  let ?label = "squeeze (map_tensor (\<lambda>v. if v = label_set ! i then 1 else 0) (vd_label val_data))"
  let ?s0 = "((fst state)\<lparr>inference_state := reset_state c (inference_state (fst state))\<rparr>, snd state)"
  from assms(1) have f: "for_each (iteration_step c ?label vol_index i n_volumes (vd_filename val_data))
      [0..<max_iters] ?s0 = Inr state'"
    by (simp add: label_step_def Let_def)
  have init: "?P ?s0" using assms(2) by simp
  show ?thesis
  proof (rule for_each_invariant [where P = ?P, OF f init])
    fix idx t t'
    assume "?P t" "iteration_step c ?label vol_index i n_volumes (vd_filename val_data) idx t = Inr t'"
    then show "?P t'" using iteration_step_padded [OF _ _ assms(3)] by blast
  qed
qed

lemma volume_step_padded:
  assumes "volume_step c label_set max_iters n_volumes indexed state = Inr state'"
    and "padded len n d k (metric (snd state))" and "fst indexed - 1 < len"
  shows "padded len n d k (metric (snd state'))"
proof -
  let ?P = "\<lambda>t. padded len n d k (metric (snd t))"
  let ?s0 = "((fst state)\<lparr>inference_state := init_state c (vd_image (snd indexed))\<rparr>, snd state)"
  from assms(1) have f: "for_each (label_step c label_set max_iters (snd indexed) (fst indexed) n_volumes)
      [1..<length label_set] ?s0 = Inr state'"
    by (simp add: volume_step_def Let_def)
  have init: "?P ?s0" using assms(2) by simp
  show ?thesis
  proof (rule for_each_invariant [where P = ?P, OF f init])
    fix i t t'
    assume "?P t" "label_step c label_set max_iters (snd indexed) (fst indexed) n_volumes i t = Inr t'"
    then show "?P t'" using label_step_padded [OF _ _ assms(3)] by blast
  qed
qed

lemma evaluate_padded:
  assumes "evaluate c label_set max_iters obj_num val_loader st0 = Inr result"
  shows "padded (length val_loader) obj_num (length label_set - 1) max_iters (metric (snd result))"
proof -
  let ?P = "\<lambda>t. padded (length val_loader) obj_num (length label_set - 1) max_iters (metric (snd t))"
  let ?out0 = "\<lparr>metric = init_metric obj_num (length label_set - 1) max_iters, log_string = []\<rparr>"
  from assms have f: "for_each (volume_step c label_set max_iters (length val_loader))
      (zip [1..<Suc (length val_loader)] val_loader) (st0, ?out0) = Inr result"
    by (simp add: evaluate_def Let_def)
  have init: "?P (st0, ?out0)" by (simp add: padded_init)
  show ?thesis
  proof (rule for_each_invariant [where P = ?P, OF f init])
    fix x t t'
    assume x_in: "x \<in> set (zip [1..<Suc (length val_loader)] val_loader)" and pt: "?P t"
      and step: "volume_step c label_set max_iters (length val_loader) x t = Inr t'"
    obtain a b where x: "x = (a, b)" by (cases x)
    from x_in have "a \<in> set [1..<Suc (length val_loader)]" unfolding x by (rule set_zip_leftD)
    then have "fst x - 1 < length val_loader" unfolding x by auto
    from volume_step_padded [OF step pt this] show "?P t'" .
  qed
qed

lemma collect_Inr:
  "collect ms = Inr xs \<Longrightarrow> length xs = length ms \<and> (\<forall>i < length ms. ms ! i = Inr (xs ! i))"
proof (induction ms arbitrary: xs)
  case Nil
  then show ?case by simp
next
  case (Cons m ms)
  from Cons.prems obtain y ys where m: "m = Inr y" and ys: "collect ms = Inr ys" and xs: "xs = y # ys"
    by (auto simp: err_bind_eq_Inr)
  from Cons.IH [OF ys] show ?case unfolding xs m by (auto simp: nth_Cons split: nat.splits)
qed

lemma all_nan_replicate [simp]: "all_nan (replicate d (replicate k NaN))"
  by (simp add: all_nan_def list_all_iff)

lemma padded_filter:
  assumes "padded len n d k m"
  shows "filter (\<lambda>row. \<not> all_nan row) m = filter (\<lambda>row. \<not> all_nan row) (take len m)"
proof -
  from assms have dr: "drop len m = replicate (n - len) (replicate d (replicate k NaN))"
    by (simp add: padded_def)
  have "filter (\<lambda>row. \<not> all_nan row) (drop len m) = []"
    unfolding dr by (simp add: filter_empty_conv)
  moreover have "m = take len m @ drop len m" by simp
  ultimately show ?thesis by (metis append_Nil2 filter_append)
qed

lemma concat_length_const:
  "list_all (\<lambda>m. length m = n) ms \<Longrightarrow> length (concat ms) = length ms * n"
  by (induction ms) simp_all

lemma dims3_rows:
  "dims3 n d k m \<Longrightarrow> list_all (\<lambda>row. length row = d \<and> list_all (\<lambda>col. length col = k) row) m"
  by (simp add: dims3_def)

lemma dims3_cols: "dims3 n d k m \<Longrightarrow> \<forall>row \<in> set m. \<forall>col \<in> set row. length col = k"
  by (auto simp: dims3_def list_all_iff)












lemma set_metric_other:
  assumes "set_metric m v ob idx x = Inr m'" and "(v', ob', idx') \<noteq> (v, ob, idx)"
  shows "m' ! v' ! ob' ! idx' = m ! v' ! ob' ! idx'"
proof -
  note s = set_metric_Inr [OF assms(1)]
  show ?thesis
  proof (cases "v' = v")
    case False
    then show ?thesis unfolding s(1) by simp
  next
    case v: True
    show ?thesis
    proof (cases "ob' = ob")
      case False
      then show ?thesis unfolding s(1) v using s(2) by simp
    next
      case ob: True
      with v assms(2) have "idx' \<noteq> idx" by simp
      then show ?thesis unfolding s(1) v ob using s(2,3) by simp
    qed
  qed
qed

lemma set_metric_same:
  assumes "set_metric m v ob idx x = Inr m'"
  shows "m' ! v ! ob ! idx = x"
  using set_metric_Inr [OF assms] by simp

text \<open>
  C8. On a metric tensor whose (volume, object) pairs all hold the same number of
  iterations, \<^verbatim>\<open>metric[keep_index]\<close> is the tensor filtered, in order, to the volume rows
  that are not all NaN: every row whose entries are all NaN is dropped and every row
  with an entry that is not NaN is kept.
\<close>

theorem all_nan_rows_dropped:
  assumes "\<forall>row \<in> set m. \<forall>col \<in> set row. length col = k"
  shows "select_rows (keep_index m) m = filter (\<lambda>row. \<not> list_all (list_all isnan) row) m"
proof -
  have "select_rows (keep_index m) m = filter (\<lambda>row. \<not> all_nan row) m"
    using assms by (rule drop_rows_filter)
  then show ?thesis by (simp add: all_nan_def)
qed

theorem all_nan_rows_dropped_witness:
  "select_rows
     (keep_index [[[NaN, NaN], [NaN, NaN]], [[Val (1 / 2), NaN], [NaN, NaN]], [[NaN, NaN], [NaN, NaN]]])
     [[[NaN, NaN], [NaN, NaN]], [[Val (1 / 2), NaN], [NaN, NaN]], [[NaN, NaN], [NaN, NaN]]]
   = [[[Val (1 / 2), NaN], [NaN, NaN]]]"
  using all_nan_rows_dropped
    [of "[[[NaN, NaN], [NaN, NaN]], [[Val (1 / 2), NaN], [NaN, NaN]], [[NaN, NaN], [NaN, NaN]]]" 2]
  by simp



subsection \<open>The report\<close>

lemma report_unbound: "report gathered None max_iters = Inl UnboundLocalError"
  by (simp add: report_def Let_def)

text \<open>
  C2. The claim is that the run persists the metric tensor and the point-count tensor.
  In the script \<^verbatim>\<open>point_num\<close> is read at line 410 and bound nowhere, so the report raises
  UnboundLocalError before \<^verbatim>\<open>torch.save\<close>: no run of any worker returns a saved bundle.
\<close>

theorem run_never_saves:
  "run c label_set max_iters device_count shards st0 rank \<noteq> Inr (logged, Some saved)"
proof
  assume a: "run c label_set max_iters device_count shards st0 rank = Inr (logged, Some saved)"
  then have "device_count \<noteq> 0" by (auto simp: run_def split: if_splits)
  with a show False
    by (auto simp: run_def err_bind_eq_Inr Let_def report_unbound split: if_splits)
qed

lemma example_worker0:
  "worker_result replay_predictor [0, 1] 2 2 [[example_volume], []] example_locals 0 =
     Inr (\<lparr>inference_state = example_video, cur_point = [(1, 0), (1, 0)], cur_label = [1, 1],
            ann_frame_idx = 0, lowerest_dice_index = Some 1\<rparr>,
          \<lparr>metric = [[[Val (4 / 5), Val (4 / 5)]]],
           log_string = [(0, 1, 1, ''a'', [Val (4 / 5)]), (1, 1, 1, ''a'', [Val (4 / 5)])]\<rparr>)"
  by code_simp

lemma example_worker1:
  "worker_result replay_predictor [0, 1] 2 2 [[example_volume], []] example_locals 1 =
     Inr (example_locals, \<lparr>metric = [[[NaN, NaN]]], log_string = []\<rparr>)"
  by code_simp



lemma dims3_concat:
  "list_all (dims3 n d k) ms \<Longrightarrow> dims3 (length ms * n) d k (concat ms)"
  by (induction ms) (auto simp: dims3_def)

lemma padded_dims3: "padded len n d k m \<Longrightarrow> dims3 n d k m"
  by (simp add: padded_def)

lemma map_by_index: "map f xs = map (\<lambda>i. f (xs ! i)) [0..<length xs]"
proof -
  have "map f xs = map f (map ((!) xs) [0..<length xs])" by (simp only: map_nth)
  also have "\<dots> = map (\<lambda>i. f (xs ! i)) [0..<length xs]" by (simp only: map_map comp_def)
  finally show ?thesis .
qed

text \<open>
  C9. With more than one device and all workers evaluating without error: there is one
  result per worker; the metric tensor of every worker has the shape
  \<open>[maximum shard size, metric_dim, max_iters]\<close> and its rows from the size of the own shard
  on are all NaN; the gathered tensor has \<open>world size \<times> maximum shard size\<close> rows of that
  shape; and dropping the all-NaN rows of the gathered tensor leaves exactly the rows,
  not all NaN, of the volumes the workers processed.
\<close>

theorem workers_pad_to_max:
  assumes dc: "1 < device_count"
    and ok: "collect (map (worker_result c label_set max_iters device_count shards st0)
               [0..<length shards]) = Inr results"
  shows "length results = length shards \<and>
     (\<forall>rank < length shards.
        padded (length (shards ! rank)) (Max (set (map length shards))) (length label_set - 1)
          max_iters (metric (snd (results ! rank)))) \<and>
     dims3 (length shards * Max (set (map length shards))) (length label_set - 1) max_iters
       (gather_metric device_count (map (\<lambda>r. metric (snd r)) results) rank0) \<and>
     select_rows (keep_index (gather_metric device_count (map (\<lambda>r. metric (snd r)) results) rank0))
       (gather_metric device_count (map (\<lambda>r. metric (snd r)) results) rank0) =
     filter (\<lambda>row. \<not> list_all (list_all isnan) row)
       (concat (map (\<lambda>rank. take (length (shards ! rank)) (metric (snd (results ! rank))))
          [0..<length shards]))"
proof -
  let ?n = "Max (set (map length shards))" and ?d = "length label_set - 1"
  let ?ms = "map (\<lambda>r. metric (snd r)) results"
  let ?G = "gather_metric device_count ?ms rank0"
  let ?P = "\<lambda>row. \<not> all_nan row"
  from collect_Inr [OF ok] have len: "length results = length shards"
    and each: "\<forall>i < length shards.
       worker_result c label_set max_iters device_count shards st0 i = Inr (results ! i)"
    by simp_all
  have pad: "padded (length (shards ! rank)) ?n ?d max_iters (metric (snd (results ! rank)))"
    if "rank < length shards" for rank
  proof -
    from each that have "evaluate c label_set max_iters ?n (shards ! rank) st0 = Inr (results ! rank)"
      using dc by (simp add: worker_result_def obj_num_for_def)
    then show ?thesis by (rule evaluate_padded)
  qed
  have idx: "?ms = map (\<lambda>rank. metric (snd (results ! rank))) [0..<length shards]"
    unfolding len [symmetric] by (rule map_by_index)
  have G: "?G = concat ?ms" using dc by (simp add: gather_metric_def vstack_def)
  have dim: "dims3 ?n ?d max_iters (metric (snd (results ! rank)))"
    if "rank < length shards" for rank
    using pad [OF that] by (rule padded_dims3)
  have all: "list_all (dims3 ?n ?d max_iters) ?ms"
    unfolding idx list_all_iff using dim by simp
  have "dims3 (length ?ms * ?n) ?d max_iters (concat ?ms)" using all by (rule dims3_concat)
  then have dG: "dims3 (length shards * ?n) ?d max_iters ?G" unfolding G by (simp add: len)
  have "select_rows (keep_index ?G) ?G = filter ?P ?G"
    using dims3_cols [OF dG] by (rule drop_rows_filter)
  also have "\<dots> = concat (map (filter ?P) ?ms)" unfolding G by (simp add: filter_concat)
  also have "map (filter ?P) ?ms =
      map (\<lambda>rank. filter ?P (take (length (shards ! rank)) (metric (snd (results ! rank)))))
        [0..<length shards]"
  proof -
    have "filter ?P (metric (snd (results ! rank))) =
        filter ?P (take (length (shards ! rank)) (metric (snd (results ! rank))))"
      if "rank < length shards" for rank
      using pad [OF that] by (rule padded_filter)
    then show ?thesis unfolding idx by simp
  qed
  also have "concat \<dots> = filter ?P
      (concat (map (\<lambda>rank. take (length (shards ! rank)) (metric (snd (results ! rank))))
         [0..<length shards]))"
    by (simp add: filter_concat comp_def)
  finally have sel: "select_rows (keep_index ?G) ?G = filter ?P
      (concat (map (\<lambda>rank. take (length (shards ! rank)) (metric (snd (results ! rank))))
         [0..<length shards]))" .
  from len pad dG sel show ?thesis by (simp add: all_nan_def)
qed

lemma example_workers:
  "collect (map (worker_result replay_predictor [0, 1] 2 2 [[example_volume], []] example_locals)
      [0..<length [[example_volume], []]]) =
   Inr [(\<lparr>inference_state = example_video, cur_point = [(1, 0), (1, 0)], cur_label = [1, 1],
            ann_frame_idx = 0, lowerest_dice_index = Some 1\<rparr>,
          \<lparr>metric = [[[Val (4 / 5), Val (4 / 5)]]],
           log_string = [(0, 1, 1, ''a'', [Val (4 / 5)]), (1, 1, 1, ''a'', [Val (4 / 5)])]\<rparr>),
         (example_locals, \<lparr>metric = [[[NaN, NaN]]], log_string = []\<rparr>)]"
proof -
  have "[0..<length [[example_volume], []]] = [0, 1]" by (simp add: upt_conv_Cons)
  then show ?thesis
    by (simp only: list.map collect.simps example_worker0 example_worker1 err_bind_Inr)
qed

theorem workers_pad_to_max_witness:
  "gather_metric 2 [[[[Val (4 / 5), Val (4 / 5)]]], [[[NaN, NaN]]]] 0 =
     [[[Val (4 / 5), Val (4 / 5)]], [[NaN, NaN]]] \<and>
   select_rows (keep_index (gather_metric 2 [[[[Val (4 / 5), Val (4 / 5)]]], [[[NaN, NaN]]]] 0))
     (gather_metric 2 [[[[Val (4 / 5), Val (4 / 5)]]], [[[NaN, NaN]]]] 0) =
     [[[Val (4 / 5), Val (4 / 5)]]]"
proof -
  have dc: "(1::nat) < 2" by simp
  have up: "[0..<length [[example_volume], []]] = [0, 1]" by (simp add: upt_conv_Cons)
  from workers_pad_to_max [OF dc example_workers, of 0]
  show ?thesis by (simp add: up gather_metric_def vstack_def)
qed

section \<open>Properties of the merge of the two passes\<close>

text \<open>
  \<open>frame_entry\<close> is the key and the value that one yielded frame assigns to
  \<^verbatim>\<open>video_segments\<close>; a loop over a pass is the fold of these assignments.
\<close>

definition frame_entry :: "nat \<times> nat list \<times> fval tensor \<Rightarrow> py_error + nat \<times> (nat \<times> bool tensor) list" where
  "frame_entry y = (case y of (k, ids, logits) \<Rightarrow> err_bind (frame_masks ids logits) (\<lambda>m. Inr (k, m)))"

lemma record_frames_fold:
  "record_frames ys vs =
     err_bind (collect (map frame_entry ys)) (\<lambda>kms. Inr (fold (\<lambda>(k, m). AList.update k m) kms vs))"
proof (induction ys arbitrary: vs)
  case Nil
  show ?case by simp
next
  case (Cons y ys)
  obtain k ids logits where y: "y = (k, ids, logits)" by (cases y)
  have fe: "frame_entry y = err_bind (frame_masks ids logits) (\<lambda>m. Inr (k, m))"
    by (simp add: y frame_entry_def)
  have rf: "record_frames (y # ys) vs =
      err_bind (frame_masks ids logits) (\<lambda>m. record_frames ys (AList.update k m vs))"
    by (simp add: y)
  show ?case
  proof (cases "frame_masks ids logits")
    case (Inl e)
    then show ?thesis unfolding rf by (simp add: fe)
  next
    case (Inr m)
    show ?thesis
    proof (cases "collect (map frame_entry ys)")
      case (Inl e)
      with Inr show ?thesis unfolding rf by (simp add: fe Cons.IH)
    next
      case r: (Inr kms)
      with Inr show ?thesis unfolding rf by (simp add: fe Cons.IH)
    qed
  qed
qed

lemma map_of_fold_update:
  "map_of (fold (\<lambda>(k, m). AList.update k m) kms vs) =
     map_of vs ++ map_of (fold (\<lambda>(k, m). AList.update k m) kms [])"
proof (induction kms arbitrary: vs)
  case Nil
  show ?case by simp
next
  case (Cons x kms)
  obtain k m where x: "x = (k, m)" by (cases x)
  let ?M = "map_of (fold (\<lambda>(k, m). AList.update k m) kms [])"
  have step: "fold (\<lambda>(k, m). AList.update k m) (x # kms) a =
      fold (\<lambda>(k, m). AList.update k m) kms (AList.update k m a)" for a
    by (simp add: x)
  have "map_of (fold (\<lambda>(k, m). AList.update k m) (x # kms) vs) = map_of (AList.update k m vs) ++ ?M"
    unfolding step by (rule Cons.IH)
  also have "map_of (AList.update k m vs) = (map_of vs)(k \<mapsto> m)" by (rule update_conv')
  finally have l: "map_of (fold (\<lambda>(k, m). AList.update k m) (x # kms) vs) = (map_of vs)(k \<mapsto> m) ++ ?M" .
  have "map_of (fold (\<lambda>(k, m). AList.update k m) (x # kms) []) = map_of (AList.update k m []) ++ ?M"
    unfolding step by (rule Cons.IH)
  also have "map_of (AList.update k m []) = [k \<mapsto> m]" by simp
  finally have r: "map_of (fold (\<lambda>(k, m). AList.update k m) (x # kms) []) = [k \<mapsto> m] ++ ?M" .
  have "map_of vs ++ ([k \<mapsto> m] ++ ?M) = (map_of vs ++ [k \<mapsto> m]) ++ ?M"
    by (rule map_add_assoc)
  also have "map_of vs ++ [k \<mapsto> m] = (map_of vs)(k \<mapsto> m)" by simp
  finally show ?case unfolding l r by simp
qed

lemma keys_fold_update:
  "fst ` set (fold (\<lambda>(k, m). AList.update k m) kms vs) = fst ` set vs \<union> fst ` set kms"
proof (induction kms arbitrary: vs)
  case Nil
  show ?case by simp
next
  case (Cons x kms)
  obtain k m where x: "x = (k, m)" by (cases x)
  have "fst ` set (AList.update k m vs) = dom (map_of (AList.update k m vs))"
    by (rule dom_map_of_conv_image_fst [symmetric])
  also have "\<dots> = insert k (dom (map_of vs))" by (simp add: update_conv')
  also have "dom (map_of vs) = fst ` set vs" by (rule dom_map_of_conv_image_fst)
  finally have u: "fst ` set (AList.update k m vs) = insert k (fst ` set vs)" .
  have "fst ` set (fold (\<lambda>(k, m). AList.update k m) (x # kms) vs) =
      fst ` set (fold (\<lambda>(k, m). AList.update k m) kms (AList.update k m vs))"
    by (simp add: x)
  also have "\<dots> = fst ` set (AList.update k m vs) \<union> fst ` set kms" by (rule Cons.IH)
  also have "\<dots> = fst ` set vs \<union> fst ` set (x # kms)" unfolding u by (auto simp: x)
  finally show ?case .
qed

lemma frame_entry_keys:
  "collect (map frame_entry ys) = Inr kms \<Longrightarrow> map fst kms = map fst ys"
proof (induction ys arbitrary: kms)
  case Nil
  then show ?case by simp
next
  case (Cons y ys)
  from Cons.prems obtain km rest where
    km: "frame_entry y = Inr km" and rest: "collect (map frame_entry ys) = Inr rest" and
    kms: "kms = km # rest"
    by (auto simp: err_bind_eq_Inr)
  obtain k ids logits where y: "y = (k, ids, logits)" by (cases y)
  have "frame_entry y = err_bind (frame_masks ids logits) (\<lambda>m. Inr (k, m))"
    by (simp add: y frame_entry_def)
  with km have "err_bind (frame_masks ids logits) (\<lambda>m. Inr (k, m)) = Inr km" by simp
  then obtain m where "km = (k, m)" by (auto simp: err_bind_eq_Inr)
  then have "fst km = fst y" by (simp add: y)
  with Cons.IH [OF rest] kms show ?case by simp
qed

lemma record_frames_keys:
  assumes "record_frames ys [] = Inr segs"
  shows "fst ` set segs = fst ` set ys"
proof -
  from assms obtain kms where
    c: "collect (map frame_entry ys) = Inr kms" and
    s: "segs = fold (\<lambda>(k, m). AList.update k m) kms []"
    by (auto simp: record_frames_fold err_bind_eq_Inr)
  have "fst ` set kms = set (map fst kms)" by simp
  also have "\<dots> = fst ` set ys" unfolding frame_entry_keys [OF c] by simp
  finally show ?thesis unfolding s keys_fold_update by simp
qed

lemma record_frames_map_of:
  assumes "record_frames ys vs = Inr vs'"
  shows "\<exists>segs. record_frames ys [] = Inr segs \<and> map_of vs' = map_of vs ++ map_of segs"
proof -
  from assms obtain kms where
    c: "collect (map frame_entry ys) = Inr kms" and
    s: "vs' = fold (\<lambda>(k, m). AList.update k m) kms vs"
    by (auto simp: record_frames_fold err_bind_eq_Inr)
  have "record_frames ys [] = Inr (fold (\<lambda>(k, m). AList.update k m) kms [])"
    by (simp add: record_frames_fold c)
  moreover have "map_of vs' = map_of vs ++ map_of (fold (\<lambda>(k, m). AList.update k m) kms [])"
    unfolding s by (rule map_of_fold_update)
  ultimately show ?thesis by blast
qed

text \<open>
  C3, as amended. Let \<open>fwd\<close> and \<open>bwd\<close> be what the forward and the reverse pass record on
  their own. The merged dict holds, for every frame index the reverse pass yields, the
  masks of the reverse pass (also when the forward pass yielded that frame), and for
  every other frame index the masks of the forward pass.
\<close>

theorem reverse_pass_wins:
  assumes "merge_passes forward reverse = Inr video_segments"
  shows "\<exists>fwd bwd. record_frames forward [] = Inr fwd \<and> record_frames reverse [] = Inr bwd \<and>
           fst ` set fwd = fst ` set forward \<and> fst ` set bwd = fst ` set reverse \<and>
           (\<forall>k. map_of video_segments k =
                  (if k \<in> fst ` set reverse then map_of bwd k else map_of fwd k))"
proof -
  from assms obtain fwd where
    f: "record_frames forward [] = Inr fwd" and r: "record_frames reverse fwd = Inr video_segments"
    by (auto simp: merge_passes_def err_bind_eq_Inr)
  from record_frames_map_of [OF r] obtain bwd where
    b: "record_frames reverse [] = Inr bwd" and
    m: "map_of video_segments = map_of fwd ++ map_of bwd" by blast
  have kb: "fst ` set bwd = fst ` set reverse" using b by (rule record_frames_keys)
  have kf: "fst ` set fwd = fst ` set forward" using f by (rule record_frames_keys)
  have "map_of video_segments k = (if k \<in> fst ` set reverse then map_of bwd k else map_of fwd k)"
    for k
  proof (cases "k \<in> fst ` set reverse")
    case True
    then have "k \<in> dom (map_of bwd)" by (simp add: dom_map_of_conv_image_fst kb)
    then show ?thesis using True by (auto simp: m map_add_dom_app_simps)
  next
    case False
    then have "k \<notin> dom (map_of bwd)" by (simp add: dom_map_of_conv_image_fst kb)
    then show ?thesis using False by (simp add: m map_add_dom_app_simps)
  qed
  with f b kf kb show ?thesis by blast
qed

text \<open>
  Both passes yield frame 0, the forward pass with a set pixel and the reverse pass
  with an unset one: the merged dict holds the mask of the reverse pass.
\<close>

theorem forward_overwritten_counterexample:
  "merge_passes [(0, [1], Tensor [Tensor [matrix [[Val 1]]]])]
                [(0, [1], Tensor [Tensor [matrix [[Val (- 1)]]]])] =
     Inr [(0, [(1, Tensor [matrix [[False]]])])] \<and>
   record_frames [(0, [1], Tensor [Tensor [matrix [[Val 1]]]])] [] =
     Inr [(0, [(1, Tensor [matrix [[True]]])])]"
  by code_simp

lemma example_merge:
  "merge_passes [(0, [1], Tensor [Tensor [matrix [[Val 1]]]]),
                 (1, [1], Tensor [Tensor [matrix [[Val 1]]]])]
                [(0, [1], Tensor [Tensor [matrix [[Val (- 1)]]]])] =
     Inr [(0, [(1, Tensor [matrix [[False]]])]), (1, [(1, Tensor [matrix [[True]]])])]"
  by code_simp

theorem reverse_pass_wins_witness:
  "\<exists>fwd bwd.
      record_frames [(0, [1], Tensor [Tensor [matrix [[Val 1]]]]),
                     (1, [1], Tensor [Tensor [matrix [[Val 1]]]])] [] = Inr fwd \<and>
      record_frames [(0, [1], Tensor [Tensor [matrix [[Val (- 1)]]]])] [] = Inr bwd \<and>
      map_of bwd 0 = Some [(1, Tensor [matrix [[False]]])] \<and>
      map_of fwd 1 = Some [(1, Tensor [matrix [[True]]])]"
proof -
  let ?F = "[(0::nat, [1::nat], Tensor [Tensor [matrix [[Val 1]]]]),
             (1, [1], Tensor [Tensor [matrix [[Val 1]]]])]"
  let ?R = "[(0::nat, [1::nat], Tensor [Tensor [matrix [[Val (- 1)]]]])]"
  let ?M = "[(0::nat, [(1::nat, Tensor [matrix [[False]]])]), (1, [(1, Tensor [matrix [[True]]])])]"
  from reverse_pass_wins [OF example_merge] obtain fwd where
    "\<exists>bwd. record_frames ?F [] = Inr fwd \<and> record_frames ?R [] = Inr bwd \<and>
           fst ` set fwd = fst ` set ?F \<and> fst ` set bwd = fst ` set ?R \<and>
           (\<forall>k. map_of ?M k = (if k \<in> fst ` set ?R then map_of bwd k else map_of fwd k))" ..
  then obtain bwd where
    c: "record_frames ?F [] = Inr fwd \<and> record_frames ?R [] = Inr bwd \<and>
           fst ` set fwd = fst ` set ?F \<and> fst ` set bwd = fst ` set ?R \<and>
           (\<forall>k. map_of ?M k = (if k \<in> fst ` set ?R then map_of bwd k else map_of fwd k))" ..
  note f = c [THEN conjunct1]
  note b = c [THEN conjunct2, THEN conjunct1]
  note k = c [THEN conjunct2, THEN conjunct2, THEN conjunct2, THEN conjunct2]
  from k have "map_of ?M 0 = (if (0::nat) \<in> fst ` set ?R then map_of bwd 0 else map_of fwd 0)"
    by (rule spec)
  then have "Some [(1, Tensor [matrix [[False]]])] = map_of bwd 0" by simp
  then have k0: "map_of bwd 0 = Some [(1, Tensor [matrix [[False]]])]" by (rule sym)
  from k have "map_of ?M 1 = (if (1::nat) \<in> fst ` set ?R then map_of bwd 1 else map_of fwd 1)"
    by (rule spec)
  then have "Some [(1, Tensor [matrix [[True]]])] = map_of fwd 1" by simp
  then have k1: "map_of fwd 1 = Some [(1, Tensor [matrix [[True]]])]" by (rule sym)
  show ?thesis
    by (rule exI [of _ fwd], rule exI [of _ bwd], intro conjI) (rule f b k0 k1)+
qed

section \<open>Properties of the seeding and of the refinement loop\<close>




text \<open>
  What the proofs assume of the largest-connected-component function, which is not part
  of the script: the mask it returns lies within its argument, and it has a set entry
  when its argument has one.
\<close>

definition component_selector :: "(bool tensor \<Rightarrow> bool tensor) \<Rightarrow> bool" where
  "component_selector lcc \<longleftrightarrow>
     (\<forall>m. set (nonzero (lcc m)) \<subseteq> set (nonzero m) \<and> (nonzero m \<noteq> [] \<longrightarrow> nonzero (lcc m) \<noteq> []))"

lemma get_points_from_label_unfold:
  "get_points_from_label lcc labels index =
     (let comp = nonzero (lcc (map_tensor (\<lambda>v. v = index) labels));
          pdis = map (\<lambda>p. sq_dist_mean p (mean0 comp)) comp
      in if comp = [] then Inl IndexError else Inr (comp ! (argsort pdis ! 0)))"
proof -
  have "argsort (map f comp) = [] \<longleftrightarrow> comp = []" for f :: "nat list \<Rightarrow> rat" and comp
    using length_argsort [of "map f comp"] by (metis length_0_conv length_map)
  then show ?thesis by (simp add: get_points_from_label_def Let_def)
qed

lemma get_points_from_label_empty:
  "nonzero (lcc (map_tensor (\<lambda>v. v = index) labels)) = [] \<Longrightarrow>
     get_points_from_label lcc labels index = Inl IndexError"
  by (simp add: get_points_from_label_unfold)


lemma append_nearest_grows:
  assumes "append_nearest pts lab (ps, ls) = Inr (ps', ls')"
  shows "\<exists>new. ps' = ps @ new \<and> ls' = ls @ map (\<lambda>_. lab) new \<and> length new \<le> 1"
proof (cases "pts = []")
  case True
  with assms show ?thesis by simp
next
  case False
  with assms obtain p0 rest where ps: "ps = p0 # rest"
    by (cases ps) (simp_all add: append_nearest_def)
  from assms False obtain p where "ps' = ps @ [p]" "ls' = ls @ [lab]"
    by (auto simp: append_nearest_def ps Let_def)
  then show ?thesis by (intro exI [of _ "[p]"]) simp
qed

lemma correction_grows:
  assumes "get_points_from_false_pred pred gt ps ls = Inr (ps', ls')"
  shows "\<exists>fp fn. ps' = ps @ fp @ fn \<and> ls' = ls @ map (\<lambda>_. 0) fp @ map (\<lambda>_. 1) fn \<and>
           length fp \<le> 1 \<and> length fn \<le> 1"
proof -
  from assms obtain e1 pl e2 where
    a1: "append_nearest (nonzero e1) 0 (ps, ls) = Inr pl" and
    a2: "append_nearest (nonzero e2) 1 pl = Inr (ps', ls')"
    by (auto simp: get_points_from_false_pred_def err_bind_eq_Inr)
  obtain ps1 ls1 where pl: "pl = (ps1, ls1)" by (cases pl)
  from append_nearest_grows [OF a1 [unfolded pl]] obtain fp where
    fp: "ps1 = ps @ fp" "ls1 = ls @ map (\<lambda>_. 0) fp" "length fp \<le> 1" by blast
  from append_nearest_grows [OF a2 [unfolded pl]] obtain fn where
    fn: "ps' = ps1 @ fn" "ls' = ls1 @ map (\<lambda>_. 1) fn" "length fn \<le> 1" by blast
  from fp fn show ?thesis by (intro exI [of _ fp] exI [of _ fn]) simp
qed

lemma seed_first_Inr:
  assumes "seed_first c label st = Inr st'"
  shows "\<exists>point x y frame_idx pred gt.
     get_points_from_label (largest_component c) label 1 = Inr point \<and>
     py_nth point 1 = Inr x \<and> py_nth point 0 = Inr y \<and> py_last point = Inr frame_idx \<and>
     get_points_from_false_pred pred gt [(x, y)] [1] = Inr (cur_point st', cur_label st') \<and>
     ann_frame_idx st' = frame_idx \<and> lowerest_dice_index st' = lowerest_dice_index st"
proof -
  from assms obtain point where
    p: "get_points_from_label (largest_component c) label 1 = Inr point" and
    r1: "err_bind (py_nth point 1) (\<lambda>x.
      err_bind (py_nth point 0) (\<lambda>y.
      let u_point = [(x, y)]; u_label = [1] in
      err_bind (py_last point) (\<lambda>frame_idx.
      let ann_obj_id = 1;
          (s2, out_obj_ids, out_mask_logits) =
            add_new_points c (reset_state c (inference_state st)) frame_idx ann_obj_id u_point u_label in
      err_bind (first_mask out_mask_logits) (\<lambda>pred.
      err_bind (index_axis2 frame_idx label) (\<lambda>slice.
      let gt = map_tensor (\<lambda>v. v = 1) slice in
      err_bind (get_points_from_false_pred pred gt u_point u_label) (\<lambda>(u_point, u_label).
      Inr (st\<lparr>inference_state := s2, cur_point := u_point, cur_label := u_label,
               ann_frame_idx := frame_idx\<rparr>))))))) = Inr st'"
    unfolding seed_first_def Let_def err_bind_eq_Inr by blast
  from r1 obtain x y frame_idx where
    x: "py_nth point 1 = Inr x" and y: "py_nth point 0 = Inr y" and
    f: "py_last point = Inr frame_idx" and
    r2: "(let (s2, out_obj_ids, out_mask_logits) =
            add_new_points c (reset_state c (inference_state st)) frame_idx 1 [(x, y)] [1] in
      err_bind (first_mask out_mask_logits) (\<lambda>pred.
      err_bind (index_axis2 frame_idx label) (\<lambda>slice.
      err_bind (get_points_from_false_pred pred (map_tensor (\<lambda>v. v = 1) slice) [(x, y)] [1])
        (\<lambda>(u_point, u_label).
      Inr (st\<lparr>inference_state := s2, cur_point := u_point, cur_label := u_label,
               ann_frame_idx := frame_idx\<rparr>))))) = Inr st'"
    unfolding Let_def err_bind_eq_Inr by blast
  obtain s2 ids logits where
    a: "add_new_points c (reset_state c (inference_state st)) frame_idx 1 [(x, y)] [1] = (s2, ids, logits)"
    by (cases "add_new_points c (reset_state c (inference_state st)) frame_idx 1 [(x, y)] [1]")
  from r2 obtain pred and slice :: "nat tensor" and pl where
    g: "get_points_from_false_pred pred (map_tensor (\<lambda>v. v = 1) slice) [(x, y)] [1] = Inr pl" and
    st': "(case pl of (u_point, u_label) \<Rightarrow>
      Inr (st\<lparr>inference_state := s2, cur_point := u_point, cur_label := u_label,
               ann_frame_idx := frame_idx\<rparr>)) = Inr st'"
    unfolding a by (auto simp: err_bind_eq_Inr)
  obtain ps ls where pl: "pl = (ps, ls)" by (cases pl)
  from st' have "st' = st\<lparr>inference_state := s2, cur_point := ps, cur_label := ls,
               ann_frame_idx := frame_idx\<rparr>" by (simp add: pl)
  then have "cur_point st' = ps" "cur_label st' = ls" "ann_frame_idx st' = frame_idx"
    "lowerest_dice_index st' = lowerest_dice_index st" by simp_all
  with p x y f g pl show ?thesis by blast
qed

lemma reseed_Inr:
  assumes "reseed c label s1 st = Inr st'"
  shows "\<exists>point x y frame_idx pred gt.
     get_points_from_label (largest_component c) label 1 = Inr point \<and>
     py_nth point 1 = Inr x \<and> py_nth point 0 = Inr y \<and> py_last point = Inr frame_idx \<and>
     get_points_from_false_pred pred gt (cur_point st @ [(x, y)]) (cur_label st @ [1]) =
       Inr (cur_point st', cur_label st') \<and>
     ann_frame_idx st' = frame_idx \<and> lowerest_dice_index st' = lowerest_dice_index st"
proof -
  from assms obtain point x y frame_idx where
    p: "get_points_from_label (largest_component c) label 1 = Inr point" and
    x: "py_nth point 1 = Inr x" and y: "py_nth point 0 = Inr y" and
    f: "py_last point = Inr frame_idx" and
    r2: "(let (s2, out_obj_ids, out_mask_logits) =
            add_new_points c s1 frame_idx 1 (cur_point st) (cur_label st) in
      err_bind (first_mask out_mask_logits) (\<lambda>pred.
      err_bind (index_axis2 frame_idx label) (\<lambda>slice.
      err_bind (get_points_from_false_pred pred (map_tensor (\<lambda>v. v = 1) slice)
                  (cur_point st @ [(x, y)]) (cur_label st @ [1]))
        (\<lambda>(u_point, u_label).
      Inr (st\<lparr>inference_state := s2, cur_point := u_point, cur_label := u_label,
               ann_frame_idx := frame_idx\<rparr>))))) = Inr st'"
    unfolding reseed_def Let_def err_bind_eq_Inr by blast
  obtain s2 ids logits where
    a: "add_new_points c s1 frame_idx 1 (cur_point st) (cur_label st) = (s2, ids, logits)"
    by (cases "add_new_points c s1 frame_idx 1 (cur_point st) (cur_label st)")
  from r2 obtain pred and slice :: "nat tensor" and pl where
    g: "get_points_from_false_pred pred (map_tensor (\<lambda>v. v = 1) slice)
          (cur_point st @ [(x, y)]) (cur_label st @ [1]) = Inr pl" and
    st': "(case pl of (u_point, u_label) \<Rightarrow>
      Inr (st\<lparr>inference_state := s2, cur_point := u_point, cur_label := u_label,
               ann_frame_idx := frame_idx\<rparr>)) = Inr st'"
    unfolding a by (auto simp: err_bind_eq_Inr)
  obtain ps ls where pl: "pl = (ps, ls)" by (cases pl)
  from st' have "st' = st\<lparr>inference_state := s2, cur_point := ps, cur_label := ls,
               ann_frame_idx := frame_idx\<rparr>" by (simp add: pl)
  then have "cur_point st' = ps" "cur_label st' = ls" "ann_frame_idx st' = frame_idx"
    "lowerest_dice_index st' = lowerest_dice_index st" by simp_all
  with p x y f g pl show ?thesis by blast
qed

lemma seed_later_reseed:
  assumes "seed_later c label st = Inr st'"
  shows "\<exists>d worst_frame worst_point.
     lowerest_dice_index st = Some d \<and> index_last d label = Inr worst_frame \<and>
     get_points_from_label (largest_component c) worst_frame 1 = Inr worst_point \<and>
     reseed c label (reset_state c (inference_state st)) st = Inr st'"
  using assms
  by (auto simp: seed_later_def Let_def err_bind_eq_Inr split: option.splits)

lemma seed_later_Inr:
  assumes "seed_later c label st = Inr st'"
  shows "\<exists>point x y frame_idx pred gt.
     get_points_from_label (largest_component c) label 1 = Inr point \<and>
     py_nth point 1 = Inr x \<and> py_nth point 0 = Inr y \<and> py_last point = Inr frame_idx \<and>
     get_points_from_false_pred pred gt (cur_point st @ [(x, y)]) (cur_label st @ [1]) =
       Inr (cur_point st', cur_label st') \<and>
     ann_frame_idx st' = frame_idx \<and> lowerest_dice_index st' = lowerest_dice_index st"
proof -
  from seed_later_reseed [OF assms] have
    "reseed c label (reset_state c (inference_state st)) st = Inr st'" by blast
  then show ?thesis by (rule reseed_Inr)
qed

lemma reseed_index:
  "reseed c label s1 (st\<lparr>lowerest_dice_index := v\<rparr>) =
     (case reseed c label s1 st of Inl e \<Rightarrow> Inl e | Inr s \<Rightarrow> Inr (s\<lparr>lowerest_dice_index := v\<rparr>))"
  by (simp add: reseed_def Let_def err_bind_def split: sum.splits prod.splits)

lemma flatten_map_tensor: "flatten (map_tensor f t) = map f (flatten t)"
  by (induction t) (simp_all add: map_concat comp_def cong: map_cong)

lemma flatten_squeeze: "flatten (squeeze t) = flatten t"
proof (induction t rule: squeeze.induct)
  case (4 t u ts)
  have eq: "map (\<lambda>x. flatten (squeeze x)) (t # u # ts) = map flatten (t # u # ts)"
    by (rule map_cong) (use 4 in auto)
  have "flatten (squeeze (Tensor (t # u # ts))) =
      concat (map (\<lambda>x. flatten (squeeze x)) (t # u # ts))"
    by (simp add: comp_def)
  also have "\<dots> = concat (map flatten (t # u # ts))" by (simp only: eq)
  also have "\<dots> = flatten (Tensor (t # u # ts))" by simp
  finally show ?case .
qed simp_all

lemma nonzero_empty_aux:
  "True \<notin> set (flatten t) \<Longrightarrow> nonzero t = []"
  "(\<forall>t \<in> set ts. True \<notin> set (flatten t)) \<Longrightarrow> nonzero_from i ts = []"
  by (induction t and i ts rule: nonzero_nonzero_from.induct) auto

lemma nonzero_absent:
  fixes t :: "nat tensor"
  assumes "li \<notin> set (flatten t)"
  shows "nonzero (map_tensor (\<lambda>v. v = (1::nat))
           (squeeze (map_tensor (\<lambda>v. if v = li then 1 else 0) t))) = []"
proof -
  have "True \<notin> set (flatten (map_tensor (\<lambda>v. v = (1::nat))
           (squeeze (map_tensor (\<lambda>v. if v = li then 1 else 0) t))))"
    using assms by (auto simp: flatten_map_tensor flatten_squeeze)
  then show ?thesis by (rule nonzero_empty_aux(1))
qed

lemma propagate_merge_Inr:
  assumes "propagate_merge c st = Inr (st', pred)"
  shows "cur_point st' = cur_point st \<and> cur_label st' = cur_label st \<and>
         ann_frame_idx st' = ann_frame_idx st \<and> lowerest_dice_index st' = lowerest_dice_index st"
  using assms
  by (auto simp: propagate_merge_def Let_def err_bind_eq_Inr split: prod.splits)

lemma iteration_Inr:
  assumes "iteration c label idx st = Inr (st', dice)"
  shows "\<exists>st1. (if idx = 0 then seed_first c label st else seed_later c label st) = Inr st1 \<and>
           cur_point st' = cur_point st1 \<and> cur_label st' = cur_label st1 \<and>
           ann_frame_idx st' = ann_frame_idx st1"
proof -
  from assms obtain st1 st2 pred where
    s: "(if idx = 0 then seed_first c label st else seed_later c label st) = Inr st1" and
    p: "propagate_merge c st1 = Inr (st2, pred)" and
    e: "\<exists>i. st' = st2\<lparr>lowerest_dice_index := i\<rparr>"
    by (auto simp: iteration_def err_bind_eq_Inr Let_def split: prod.splits)
  from e propagate_merge_Inr [OF p] have
    "cur_point st' = cur_point st1 \<and> cur_label st' = cur_label st1 \<and>
     ann_frame_idx st' = ann_frame_idx st1" by auto
  with s show ?thesis by blast
qed







text \<open>
  C10. When the label index \<^verbatim>\<open>label_set[i]\<close> does not occur in the label volume, seed
  selection on the binary mask of that label raises IndexError, and so does the body
  of the per-label loop as soon as it runs an iteration: nothing checks for an empty
  mask and the object is not skipped.
\<close>

theorem seeding_fails_on_absent_label:
  assumes sel: "component_selector (largest_component c)"
    and absent: "label_set ! i \<notin> set (flatten (vd_label val_data))"
    and iters: "0 < max_iters"
  shows "get_points_from_label (largest_component c)
           (squeeze (map_tensor (\<lambda>v. if v = label_set ! i then 1 else 0) (vd_label val_data))) 1
           = Inl IndexError \<and>
         label_step c label_set max_iters val_data vol_index n_volumes i state = Inl IndexError"
proof -
  let ?label = "squeeze (map_tensor (\<lambda>v. if v = label_set ! i then 1 else (0::nat)) (vd_label val_data))"
  let ?st = "(fst state)\<lparr>inference_state := reset_state c (inference_state (fst state))\<rparr>"
  have "nonzero (map_tensor (\<lambda>v. v = (1::nat)) ?label) = []" using absent by (rule nonzero_absent)
  moreover from sel have "set (nonzero (largest_component c (map_tensor (\<lambda>v. v = 1) ?label)))
      \<subseteq> set (nonzero (map_tensor (\<lambda>v. v = 1) ?label))"
    by (simp add: component_selector_def)
  ultimately have "nonzero (largest_component c (map_tensor (\<lambda>v. v = 1) ?label)) = []" by simp
  then have seed: "get_points_from_label (largest_component c) ?label 1 = Inl IndexError"
    by (rule get_points_from_label_empty)
  then have "seed_first c ?label ?st = Inl IndexError" by (simp add: seed_first_def)
  then have "iteration c ?label 0 ?st = Inl IndexError" by (simp add: iteration_def)
  then have step: "iteration_step c ?label vol_index i n_volumes (vd_filename val_data) 0 (?st, snd state)
      = Inl IndexError"
    by (simp add: iteration_step_def)
  from iters have "[0..<max_iters] = 0 # [1..<max_iters]" by (simp add: upt_conv_Cons)
  then have "for_each (iteration_step c ?label vol_index i n_volumes (vd_filename val_data))
      [0..<max_iters] (?st, snd state) = Inl IndexError"
    using step by simp
  then have "label_step c label_set max_iters val_data vol_index n_volumes i state = Inl IndexError"
    by (simp add: label_step_def Let_def)
  with seed show ?thesis by simp
qed

lemma replay_selector: "component_selector (largest_component replay_predictor)"
  by (simp add: component_selector_def replay_predictor_def)

lemma example_absent: "[0, 2] ! 1 \<notin> set (flatten (vd_label example_volume))"
  by code_simp

theorem seeding_fails_on_absent_label_witness:
  "label_step replay_predictor [0, 2] 1 example_volume 1 1 1
     (example_locals, \<lparr>metric = init_metric 1 1 1, log_string = []\<rparr>) = Inl IndexError"
proof -
  have iters: "(0::nat) < 1" by simp
  from seeding_fails_on_absent_label [OF replay_selector example_absent iters]
  show ?thesis by (rule conjunct2)
qed

text \<open>
  C6. Whenever the correction step returns, the prompts and the labels it was given
  are prefixes of what it returns, and the two results have equal length if the two
  inputs had. Within an iteration of \<^verbatim>\<open>run\<close> the prompts only grow: an iteration after
  the first extends the prompts and labels it starts with, and iteration 0 ends with a
  non-empty prompt list; in both the prompts and labels stay of equal length.
\<close>

theorem prompts_only_grow:
  assumes corr: "get_points_from_false_pred pred gt ps ls = Inr (ps', ls')"
    and it: "iteration c label idx st = Inr (st', dice)"
  shows "prefix ps ps' \<and> prefix ls ls' \<and> (length ps = length ls \<longrightarrow> length ps' = length ls') \<and>
         (0 < idx \<longrightarrow>
            strict_prefix (cur_point st) (cur_point st') \<and>
            strict_prefix (cur_label st) (cur_label st') \<and>
            (length (cur_point st) = length (cur_label st) \<longrightarrow>
               length (cur_point st') = length (cur_label st'))) \<and>
         (idx = 0 \<longrightarrow> cur_point st' \<noteq> [] \<and> length (cur_point st') = length (cur_label st'))"
proof -
  from correction_grows [OF corr] obtain fp fn where
    g: "ps' = ps @ fp @ fn" "ls' = ls @ map (\<lambda>_. 0) fp @ map (\<lambda>_. 1) fn" by blast
  then have a: "prefix ps ps' \<and> prefix ls ls' \<and> (length ps = length ls \<longrightarrow> length ps' = length ls')"
    by simp
  from iteration_Inr [OF it] obtain st1 where
    s: "(if idx = 0 then seed_first c label st else seed_later c label st) = Inr st1" and
    e: "cur_point st' = cur_point st1" "cur_label st' = cur_label st1" by blast
  have b: "strict_prefix (cur_point st) (cur_point st') \<and>
           strict_prefix (cur_label st) (cur_label st') \<and>
           (length (cur_point st) = length (cur_label st) \<longrightarrow>
              length (cur_point st') = length (cur_label st'))" if "0 < idx"
  proof -
    from s that have "seed_later c label st = Inr st1" by simp
    from seed_later_Inr [OF this] obtain x y pred1 gt1 where
      "get_points_from_false_pred pred1 gt1 (cur_point st @ [(x, y)]) (cur_label st @ [1]) =
         Inr (cur_point st1, cur_label st1)" by blast
    from correction_grows [OF this] obtain fp1 fn1 where
      "cur_point st1 = (cur_point st @ [(x, y)]) @ fp1 @ fn1"
      "cur_label st1 = (cur_label st @ [1]) @ map (\<lambda>_. 0) fp1 @ map (\<lambda>_. 1) fn1" by blast
    then show ?thesis unfolding e by (simp add: strict_prefix_def)
  qed
  have c: "cur_point st' \<noteq> [] \<and> length (cur_point st') = length (cur_label st')" if "idx = 0"
  proof -
    from s that have "seed_first c label st = Inr st1" by simp
    from seed_first_Inr [OF this] obtain x y pred1 gt1 where
      "get_points_from_false_pred pred1 gt1 [(x, y)] [1] = Inr (cur_point st1, cur_label st1)"
      by blast
    from correction_grows [OF this] obtain fp1 fn1 where
      "cur_point st1 = [(x, y)] @ fp1 @ fn1"
      "cur_label st1 = [1] @ map (\<lambda>_. 0) fp1 @ map (\<lambda>_. 1) fn1" by blast
    then show ?thesis unfolding e by simp
  qed
  from a b c show ?thesis by blast
qed

text \<open>
  The outcome of the seeding of a later iteration does not depend on which frame
  \<^verbatim>\<open>lowerest_dice_index\<close> names, as long as that frame has a seed.
\<close>

lemma seed_later_independent:
  assumes "seed_later c label st = Inr st'"
    and "index_last d' label = Inr worst_frame'"
    and "get_points_from_label (largest_component c) worst_frame' 1 = Inr p'"
  shows "seed_later c label (st\<lparr>lowerest_dice_index := Some d'\<rparr>) =
           Inr (st'\<lparr>lowerest_dice_index := Some d'\<rparr>)"
proof -
  from seed_later_reseed [OF assms(1)] have
    r: "reseed c label (reset_state c (inference_state st)) st = Inr st'" by blast
  have "seed_later c label (st\<lparr>lowerest_dice_index := Some d'\<rparr>) =
      reseed c label (reset_state c (inference_state st)) (st\<lparr>lowerest_dice_index := Some d'\<rparr>)"
    using assms(2,3) by (simp add: seed_later_def Let_def)
  also have "\<dots> = Inr (st'\<lparr>lowerest_dice_index := Some d'\<rparr>)"
    by (simp add: reseed_index r)
  finally show ?thesis .
qed

text \<open>
  C1. The claim is that iterations after the first seed an extra positive point from the
  worst frame of the previous iteration. In the script the point computed from that
  frame (line 314) is overwritten at line 317: the extra prompt is the seed of the whole
  label volume, on the frame of that seed, and it is appended to the prompts before
  the correction. Had another frame been the worst one, the result would be the same.
\<close>

theorem extra_point_is_volume_seed:
  assumes later: "seed_later c label st = Inr st'"
    and frame: "index_last d' label = Inr worst_frame'"
    and seed: "get_points_from_label (largest_component c) worst_frame' 1 = Inr p'"
  shows "(\<exists>point. get_points_from_label (largest_component c) label 1 = Inr point \<and>
            ann_frame_idx st' = last point \<and>
            prefix (cur_point st @ [(point ! 1, point ! 0)]) (cur_point st')) \<and>
         seed_later c label (st\<lparr>lowerest_dice_index := Some d'\<rparr>) =
           Inr (st'\<lparr>lowerest_dice_index := Some d'\<rparr>)"
proof
  from seed_later_Inr [OF later] obtain point x y frame_idx pred gt where
    p: "get_points_from_label (largest_component c) label 1 = Inr point" and
    x: "py_nth point 1 = Inr x" and y: "py_nth point 0 = Inr y" and
    l: "py_last point = Inr frame_idx" and
    g: "get_points_from_false_pred pred gt (cur_point st @ [(x, y)]) (cur_label st @ [1]) =
          Inr (cur_point st', cur_label st')" and
    a: "ann_frame_idx st' = frame_idx"
    by blast
  from x y have xy: "x = point ! 1" "y = point ! 0" by (auto simp: py_nth_def split: if_splits)
  from l have fr: "frame_idx = last point" by (auto simp: py_last_def split: if_splits)
  from correction_grows [OF g] obtain fp fn where
    "cur_point st' = (cur_point st @ [(x, y)]) @ fp @ fn" by blast
  then have "prefix (cur_point st @ [(point ! 1, point ! 0)]) (cur_point st')"
    unfolding xy by (simp add: prefix_def)
  with p a fr show "\<exists>point. get_points_from_label (largest_component c) label 1 = Inr point \<and>
      ann_frame_idx st' = last point \<and>
      prefix (cur_point st @ [(point ! 1, point ! 0)]) (cur_point st')" by blast
next
  show "seed_later c label (st\<lparr>lowerest_dice_index := Some d'\<rparr>) =
      Inr (st'\<lparr>lowerest_dice_index := Some d'\<rparr>)"
    using later frame seed by (rule seed_later_independent)
qed

text \<open>
  On the example volume, iteration 0 ends with frame 1 as the worst frame. The seed of
  frame 1 is the pixel (row 1, column 1); the prompt that iteration 1 adds is the
  volume seed (row 0, column 1), on frame 0.
\<close>

lemma example_iteration0:
  "iteration replay_predictor example_label 0 (example_locals\<lparr>inference_state := example_video\<rparr>) =
     Inr (\<lparr>inference_state = example_video, cur_point = [(1, 0)], cur_label = [1],
            ann_frame_idx = 0, lowerest_dice_index = Some 1\<rparr>, Val (4 / 5))"
  by code_simp

lemma example_iteration1:
  "iteration replay_predictor example_label 1
     \<lparr>inference_state = example_video, cur_point = [(1, 0)], cur_label = [1],
            ann_frame_idx = 0, lowerest_dice_index = Some 1\<rparr> =
     Inr (\<lparr>inference_state = example_video, cur_point = [(1, 0), (1, 0)], cur_label = [1, 1],
            ann_frame_idx = 0, lowerest_dice_index = Some 1\<rparr>, Val (4 / 5))"
  by code_simp

lemma example_seed_later:
  "seed_later replay_predictor example_label
     \<lparr>inference_state = example_video, cur_point = [(1, 0)], cur_label = [1],
            ann_frame_idx = 0, lowerest_dice_index = Some 1\<rparr> =
     Inr \<lparr>inference_state = example_video, cur_point = [(1, 0), (1, 0)], cur_label = [1, 1],
            ann_frame_idx = 0, lowerest_dice_index = Some 1\<rparr>"
  by code_simp

lemma example_worst_frame:
  "index_last 1 example_label = Inr (matrix [[0, 0], [0, 1]])"
  by code_simp

lemma example_worst_seed:
  "get_points_from_label (largest_component replay_predictor) (matrix [[0, 0], [0, 1]]) 1 = Inr [1, 1]"
  by code_simp

lemma example_frame0: "index_last 0 example_label = Inr (matrix [[1, 1], [0, 0]])"
  by code_simp

lemma example_frame0_seed:
  "get_points_from_label (largest_component replay_predictor) (matrix [[1, 1], [0, 0]]) 1 = Inr [0, 0]"
  by code_simp

theorem extra_point_is_volume_seed_witness:
  "(\<exists>point. get_points_from_label (largest_component replay_predictor) example_label 1 = Inr point \<and>
      ann_frame_idx \<lparr>inference_state = example_video, cur_point = [(1, 0), (1, 0)],
          cur_label = [1, 1], ann_frame_idx = 0, lowerest_dice_index = Some 1\<rparr> = last point \<and>
      prefix (cur_point \<lparr>inference_state = example_video, cur_point = [(1, 0)], cur_label = [1],
                   ann_frame_idx = 0, lowerest_dice_index = Some 1\<rparr> @ [(point ! 1, point ! 0)])
        (cur_point \<lparr>inference_state = example_video, cur_point = [(1, 0), (1, 0)],
          cur_label = [1, 1], ann_frame_idx = 0, lowerest_dice_index = Some 1\<rparr>)) \<and>
   seed_later replay_predictor example_label
     (\<lparr>inference_state = example_video, cur_point = [(1, 0)], cur_label = [1],
       ann_frame_idx = 0, lowerest_dice_index = Some 1\<rparr>\<lparr>lowerest_dice_index := Some 0\<rparr>) =
     Inr (\<lparr>inference_state = example_video, cur_point = [(1, 0), (1, 0)], cur_label = [1, 1],
           ann_frame_idx = 0, lowerest_dice_index = Some 1\<rparr>\<lparr>lowerest_dice_index := Some 0\<rparr>)"
  by (rule extra_point_is_volume_seed [OF example_seed_later example_frame0 example_frame0_seed])

theorem prompts_only_grow_witness:
  "\<exists>p q. prefix [(3 :: nat, 4 :: nat)] [(3, 4), p, q] \<and> prefix [1] [1, 0, 1 :: nat] \<and>
     length [(3, 4), p, q] = length [1, 0, 1 :: nat] \<and>
     strict_prefix [(1, 0)] [(1, 0), (1 :: nat, 0 :: nat)] \<and>
     strict_prefix [1] [1, 1 :: nat] \<and>
     length [(1, 0), (1 :: nat, 0 :: nat)] = length [1, 1 :: nat]"
proof -
  from half_correction obtain p q where
    corr: "get_points_from_false_pred
      (Tensor (replicate 20 (Tensor (replicate 20 (Scalar True) @ replicate 20 (Scalar False)))))
      (Tensor (replicate 20 (Tensor (replicate 20 (Scalar False) @ replicate 20 (Scalar True)))))
      [(3, 4)] [1] = Inr ([(3, 4), p, q], [1, 0, 1])" by (elim exE)
  from prompts_only_grow [OF corr example_iteration1]
  have "prefix [(3 :: nat, 4 :: nat)] [(3, 4), p, q] \<and> prefix [1] [1, 0, 1 :: nat] \<and>
     length [(3, 4), p, q] = length [1, 0, 1 :: nat] \<and>
     strict_prefix [(1, 0)] [(1, 0), (1 :: nat, 0 :: nat)] \<and>
     strict_prefix [1] [1, 1 :: nat] \<and>
     length [(1, 0), (1 :: nat, 0 :: nat)] = length [1, 1 :: nat]"
    by simp
  then show ?thesis by (intro exI [of _ p] exI [of _ q])
qed

end
